theory Spec2Isabelle
  imports Complex_Main "HOL-Library.Sublist"
begin

section \<open>Python strings\<close>

text \<open>
  A Python \<open>str\<close> is modelled as a \<open>string\<close>: the bytes of its UTF-8 encoding.
  ASCII characters are single bytes below 128 and every byte of a non-ASCII code point is
  128 or more, so substring tests against ASCII patterns, splitting at an ASCII
  separator and \<open>encode("ascii", "ignore")\<close> are exact on this representation.
  Python's case mapping and whitespace follow the Unicode character database. Where a
  text may hold non-ASCII characters and the result depends on them, the model calls
  the library (\<open>str_strip\<close>, \<open>str_lower\<close>, \<open>str_upper\<close>, \<open>str_title\<close>, \<open>remove_spaces\<close> and
  \<open>nfkd\<close> of \<open>pylib\<close> below). The functions of this section act on the ASCII range and
  leave the bytes of non-ASCII code points as they are. They are used where that is what
  Python computes: on text that is ASCII at that point (\<open>slugify\<close> after its
  \<open>encode\<close>), where the later steps erase the difference (the \<open>strip\<close> of
  \<open>clean_price_to_number\<close>, the blank test of a script block, the whitespace of
  \<open>_normalize_title\<close>), and in the comparison with "product", whose letters no
  non-ASCII character lowers to. The one place where they are an approximation is the
  \<open>lower\<close> of \<open>_should_exclude_url\<close> and \<open>_determine_page_type\<close>: Python lowers a few
  non-ASCII characters to ASCII letters (the Kelvin sign to "k"), so the program
  excludes every URL the model excludes, and some more.
\<close>

definition is_digit :: "char \<Rightarrow> bool" where
  "is_digit c = (48 \<le> (of_char c :: nat) \<and> (of_char c :: nat) \<le> 57)"

definition is_upper_az :: "char \<Rightarrow> bool" where
  "is_upper_az c = (65 \<le> (of_char c :: nat) \<and> (of_char c :: nat) \<le> 90)"

definition is_lower_az :: "char \<Rightarrow> bool" where
  "is_lower_az c = (97 \<le> (of_char c :: nat) \<and> (of_char c :: nat) \<le> 122)"

definition is_ascii :: "char \<Rightarrow> bool" where
  "is_ascii c = ((of_char c :: nat) < 128)"

text \<open>The ASCII characters for which \<open>str.isspace()\<close> holds (also the class \<open>\s\<close>).\<close>

definition is_space :: "char \<Rightarrow> bool" where
  "is_space c = ((9 \<le> (of_char c :: nat) \<and> (of_char c :: nat) \<le> 13)
     \<or> (28 \<le> (of_char c :: nat) \<and> (of_char c :: nat) \<le> 32))"

definition lower_char :: "char \<Rightarrow> char" where
  "lower_char c = (if is_upper_az c then char_of ((of_char c :: nat) + 32) else c)"

definition upper_char :: "char \<Rightarrow> char" where
  "upper_char c = (if is_lower_az c then char_of ((of_char c :: nat) - 32) else c)"

definition lower :: "string \<Rightarrow> string" where
  "lower s = map lower_char s"

definition upper :: "string \<Rightarrow> string" where
  "upper s = map upper_char s"

text \<open>\<open>s.strip()\<close> and \<open>s.strip(chars)\<close>.\<close>

definition strip_where :: "(char \<Rightarrow> bool) \<Rightarrow> string \<Rightarrow> string" where
  "strip_where P s = rev (dropWhile P (rev (dropWhile P s)))"

definition strip :: "string \<Rightarrow> string" where
  "strip s = strip_where is_space s"

definition strip_chars :: "string \<Rightarrow> string \<Rightarrow> string" where
  "strip_chars cs s = strip_where (\<lambda>c. c \<in> set cs) s"

text \<open>\<open>s.split(sep)\<close> for a one-character separator: never the empty list.\<close>

fun py_split :: "char \<Rightarrow> string \<Rightarrow> string list" where
  "py_split sep [] = [[]]"
| "py_split sep (c # cs) =
     (if c = sep then [] # py_split sep cs
      else (case py_split sep cs of
              [] \<Rightarrow> [[c]]
            | w # ws \<Rightarrow> (c # w) # ws))"

text \<open>\<open>s.replace(a, b)\<close> for single characters, and \<open>s.replace(a, "")\<close>.\<close>

definition replace_char :: "char \<Rightarrow> char \<Rightarrow> string \<Rightarrow> string" where
  "replace_char a b s = map (\<lambda>c. if c = a then b else c) s"

definition remove_char :: "char \<Rightarrow> string \<Rightarrow> string" where
  "remove_char a s = filter (\<lambda>c. c \<noteq> a) s"

text \<open>\<open>p in s\<close> on strings is \<^const>\<open>sublist\<close>; \<open>any(p in s for p in ps)\<close>:\<close>

definition any_in :: "string list \<Rightarrow> string \<Rightarrow> bool" where
  "any_in ps s = list_ex (\<lambda>p. sublist p s) ps"

section \<open>Price parsing\<close>

text \<open>
  \<open>PRICE_CLEAN_RE = re.compile(r"[^0-9,.\-]")\<close>: the characters that
  \<open>PRICE_CLEAN_RE.sub("", t)\<close> keeps.
\<close>

definition price_keep :: "char \<Rightarrow> bool" where
  "price_keep c = (is_digit c \<or> c = CHR '','' \<or> c = CHR ''.'' \<or> c = CHR ''-'')"

definition digits_val :: "string \<Rightarrow> int" where
  "digits_val ds = foldl (\<lambda>a c. 10 * a + ((of_char c :: int) - 48)) 0 ds"

text \<open>
  \<open>float(t)\<close> on the strings that reach it in \<open>clean_price_to_number\<close>, which hold
  digits, dots and minus signs only: an optional leading minus, then digits with at most
  one dot and at least one digit. \<open>None\<close> is the \<open>ValueError\<close>. The value is the exact
  decimal; the rounding of that decimal to the nearest double is not modelled.
\<close>

definition py_float :: "string \<Rightarrow> rat option" where
  "py_float s =
     (let neg = (s \<noteq> [] \<and> hd s = CHR ''-'');
          body = (if neg then tl s else s);
          ip = takeWhile is_digit body;
          rest = dropWhile is_digit body;
          sg = (if neg then - 1 else 1 :: rat)
      in case rest of
           [] \<Rightarrow> if ip = [] then None else Some (sg * of_int (digits_val ip))
         | c # fp \<Rightarrow>
             if c = CHR ''.'' \<and> list_all is_digit fp \<and> (ip \<noteq> [] \<or> fp \<noteq> [])
             then Some (sg * (of_int (digits_val ip) + of_int (digits_val fp) / 10 ^ length fp))
             else None)"

text \<open>The separator disambiguation of \<open>clean_price_to_number\<close>, on the cleaned text.\<close>

definition price_separators :: "string \<Rightarrow> string" where
  "price_separators t =
     (if CHR '','' \<in> set t \<and> CHR ''.'' \<in> set t
      then replace_char CHR '','' CHR ''.'' (remove_char CHR ''.'' t)
      else if CHR '','' \<in> set t \<and> count_list t CHR '','' = 1
                \<and> length (last (py_split CHR '','' t)) \<in> {1, 2}
           then replace_char CHR '','' CHR ''.'' t
           else remove_char CHR '','' t)"

definition clean_price_to_number :: "string option \<Rightarrow> rat option" where
  "clean_price_to_number text =
     (case text of
        None \<Rightarrow> None
      | Some s \<Rightarrow>
          if s = [] then None
          else let t = strip s in
               if t = [] then None
               else py_float (price_separators (filter price_keep t)))"

text \<open>
  The claim's words for the rule: the part of the cleaned text after its first comma.
\<close>

definition comma_suffix :: "string \<Rightarrow> string" where
  "comma_suffix t = tl (dropWhile (\<lambda>c. c \<noteq> CHR '','') t)"

section \<open>Slug generation\<close>

text \<open>The class \<open>[a-z0-9]\<close>.\<close>

definition slug_char :: "char \<Rightarrow> bool" where
  "slug_char c = (is_lower_az c \<or> is_digit c)"

text \<open>
  \<open>re.sub(r"C+", r, s)\<close> for a character class \<open>C\<close> and a one-character replacement:
  every maximal run of characters of the class becomes one \<open>r\<close>.
\<close>

function sub_runs :: "(char \<Rightarrow> bool) \<Rightarrow> char \<Rightarrow> string \<Rightarrow> string" where
  "sub_runs P r [] = []"
| "sub_runs P r (c # cs) =
     (if P c then r # sub_runs P r (dropWhile P cs) else c # sub_runs P r cs)"
  by pat_completeness auto
termination
  by (relation "measure (\<lambda>(P, r, s). length s)")
    (auto simp: length_dropWhile_le le_imp_less_Suc)

text \<open>\<open>re.sub(r"-{2,}", "-", s)\<close>: a run of two or more hyphens becomes one hyphen.\<close>

function squeeze_hyphens :: "string \<Rightarrow> string" where
  "squeeze_hyphens [] = []"
| "squeeze_hyphens (c # cs) =
     (if c = CHR ''-'' \<and> cs \<noteq> [] \<and> hd cs = CHR ''-''
      then CHR ''-'' # squeeze_hyphens (dropWhile (\<lambda>d. d = CHR ''-'') cs)
      else c # squeeze_hyphens cs)"
  by pat_completeness auto
termination
  by (relation "measure length") (auto simp: length_dropWhile_le le_imp_less_Suc)

text \<open>
  \<open>slugify\<close>, over the normalisation \<open>nf\<close> that stands for
  \<open>unicodedata.normalize("NFKD", \<cdot>)\<close>. On UTF-8 text,
  \<open>encode("ascii", "ignore").decode("ascii")\<close> keeps exactly the bytes below 128, and
  \<open>lower()\<close> then acts on ASCII only.
\<close>

definition slugify_with :: "(string \<Rightarrow> string) \<Rightarrow> string \<Rightarrow> string" where
  "slugify_with nf v =
     (if v = [] then []
      else let v1 = nf v;
               v2 = filter is_ascii v1;
               v3 = lower v2;
               v4 = sub_runs (\<lambda>c. \<not> slug_char c) CHR ''-'' v3;
               v5 = strip_chars ''-'' v4
           in squeeze_hyphens v5)"

text \<open>
  The canonical decompositions of the Unicode character database for the Turkish letters
  with diacritics, on UTF-8: the base letter followed by the combining mark. Dotless
  \<open>i\<close> (U+0131, bytes C4 B1) has no decomposition in the database and is not in the
  table. Other code points are passed through.
\<close>

definition nfkd_pair :: "char \<Rightarrow> char \<Rightarrow> string option" where
  "nfkd_pair a b =
     (if a = CHR 0xC3 \<and> b = CHR 0x87 then Some (''C'' @ [CHR 0xCC, CHR 0xA7])
      else if a = CHR 0xC3 \<and> b = CHR 0xA7 then Some (''c'' @ [CHR 0xCC, CHR 0xA7])
      else if a = CHR 0xC4 \<and> b = CHR 0x9E then Some (''G'' @ [CHR 0xCC, CHR 0x86])
      else if a = CHR 0xC4 \<and> b = CHR 0x9F then Some (''g'' @ [CHR 0xCC, CHR 0x86])
      else if a = CHR 0xC4 \<and> b = CHR 0xB0 then Some (''I'' @ [CHR 0xCC, CHR 0x87])
      else if a = CHR 0xC3 \<and> b = CHR 0x96 then Some (''O'' @ [CHR 0xCC, CHR 0x88])
      else if a = CHR 0xC3 \<and> b = CHR 0xB6 then Some (''o'' @ [CHR 0xCC, CHR 0x88])
      else if a = CHR 0xC5 \<and> b = CHR 0x9E then Some (''S'' @ [CHR 0xCC, CHR 0xA7])
      else if a = CHR 0xC5 \<and> b = CHR 0x9F then Some (''s'' @ [CHR 0xCC, CHR 0xA7])
      else if a = CHR 0xC3 \<and> b = CHR 0x9C then Some (''U'' @ [CHR 0xCC, CHR 0x88])
      else if a = CHR 0xC3 \<and> b = CHR 0xBC then Some (''u'' @ [CHR 0xCC, CHR 0x88])
      else None)"

fun nfkd_tr :: "string \<Rightarrow> string" where
  "nfkd_tr (a # b # cs) =
     (case nfkd_pair a b of
        Some d \<Rightarrow> d @ nfkd_tr cs
      | None \<Rightarrow> a # nfkd_tr (b # cs))"
| "nfkd_tr cs = cs"

definition slugify :: "string \<Rightarrow> string" where
  "slugify v = slugify_with nfkd_tr v"

text \<open>
  The claim's words for a slug: the maximal runs of \<open>[a-z0-9]\<close>, joined by single
  hyphens.
\<close>

function alnum_words :: "string \<Rightarrow> string list" where
  "alnum_words [] = []"
| "alnum_words (c # cs) =
     (if slug_char c
      then (c # takeWhile slug_char cs) # alnum_words (dropWhile slug_char cs)
      else alnum_words cs)"
  by pat_completeness auto
termination
  by (relation "measure length") (auto simp: length_dropWhile_le le_imp_less_Suc)

fun join_hyphen :: "string list \<Rightarrow> string" where
  "join_hyphen [] = []"
| "join_hyphen [w] = w"
| "join_hyphen (w # ws) = w @ CHR ''-'' # join_hyphen ws"

text \<open>The UTF-8 bytes of the spec's example title (O-umlaut, U-umlaut twice, dotless i).\<close>

definition ornek_urun_adi :: string where
  "ornek_urun_adi =
     [CHR 0xC3, CHR 0x96] @ ''rnek '' @ [CHR 0xC3, CHR 0x9C] @ ''r'' @ [CHR 0xC3, CHR 0xBC]
       @ ''n Ad'' @ [CHR 0xC4, CHR 0xB1] @ ''!''"

section \<open>Library functions\<close>

text \<open>
  JSON values as \<open>json.loads\<close> returns them. An object is the list of the items of the
  resulting \<open>dict\<close> (its keys are distinct); a number is an \<open>int\<close> or a finite \<open>float\<close>.
\<close>

datatype json =
    JNull
  | JBool bool
  | JInt int
  | JFloat rat
  | JStr string
  | JArr "json list"
  | JObj "(string \<times> json) list"

text \<open>
  The functions of the Python library that the program calls. \<open>json_loads\<close> is
  \<open>json.loads\<close>, with \<open>None\<close> for any exception it raises. \<open>py_repr\<close> is \<open>str(v)\<close> for
  a value that is not a string. \<open>urljoin\<close> is \<open>urllib.parse.urljoin\<close>. \<open>url_scheme\<close>,
  \<open>url_netloc\<close> and \<open>url_path\<close> are the fields of \<open>urlparse(u)\<close>, and \<open>urlunparse3 s n p\<close>
  is \<open>urlunparse((s, n, p, "", "", ""))\<close>; the URL functions are taken as total.
  \<open>set_order\<close> is the order in which Python iterates over the set of the elements of
  the given duplicate-free list (some permutation of it). \<open>str_strip\<close>, \<open>str_lower\<close>,
  \<open>str_upper\<close> and \<open>str_title\<close> are the methods \<open>strip()\<close>, \<open>lower()\<close>, \<open>upper()\<close> and
  \<open>title()\<close> of \<open>str\<close>; \<open>remove_spaces s\<close> is \<open>re.sub(r"\s+", "", s)\<close>; \<open>nfkd s\<close> is
  \<open>unicodedata.normalize("NFKD", s)\<close>.
\<close>

record pylib =
  json_loads :: "string \<Rightarrow> json option"
  py_repr :: "json \<Rightarrow> string"
  urljoin :: "string \<Rightarrow> string \<Rightarrow> string"
  url_scheme :: "string \<Rightarrow> string"
  url_netloc :: "string \<Rightarrow> string"
  url_path :: "string \<Rightarrow> string"
  urlunparse3 :: "string \<Rightarrow> string \<Rightarrow> string \<Rightarrow> string"
  set_order :: "string list \<Rightarrow> string list"
  str_strip :: "string \<Rightarrow> string"
  str_lower :: "string \<Rightarrow> string"
  str_upper :: "string \<Rightarrow> string"
  str_title :: "string \<Rightarrow> string"
  remove_spaces :: "string \<Rightarrow> string"
  nfkd :: "string \<Rightarrow> string"

text \<open>\<open>str(v)\<close>.\<close>

definition py_str :: "pylib \<Rightarrow> json \<Rightarrow> string" where
  "py_str L v = (case v of JStr s \<Rightarrow> s | _ \<Rightarrow> py_repr L v)"

text \<open>The truth value of a JSON value, and \<open>a or b\<close>.\<close>

fun truthy :: "json \<Rightarrow> bool" where
  "truthy JNull = False"
| "truthy (JBool b) = b"
| "truthy (JInt i) = (i \<noteq> 0)"
| "truthy (JFloat q) = (q \<noteq> 0)"
| "truthy (JStr s) = (s \<noteq> [])"
| "truthy (JArr xs) = (xs \<noteq> [])"
| "truthy (JObj kvs) = (kvs \<noteq> [])"

definition py_or :: "json \<Rightarrow> json \<Rightarrow> json" where
  "py_or a b = (if truthy a then a else b)"

text \<open>\<open>d.get(k)\<close> (Python's \<open>None\<close> is \<open>JNull\<close>) and \<open>d.get(k, default)\<close>.\<close>

definition dict_get :: "(string \<times> json) list \<Rightarrow> string \<Rightarrow> json" where
  "dict_get d k = (case map_of d k of None \<Rightarrow> JNull | Some v \<Rightarrow> v)"

definition dict_get_default :: "(string \<times> json) list \<Rightarrow> string \<Rightarrow> json \<Rightarrow> json" where
  "dict_get_default d k v0 = (case map_of d k of None \<Rightarrow> v0 | Some v \<Rightarrow> v)"

text \<open>The value of a string-typed field: \<open>v if isinstance(v, str) else None\<close>.\<close>

definition str_or_none :: "json \<Rightarrow> string option" where
  "str_or_none v = (case v of JStr s \<Rightarrow> Some s | _ \<Rightarrow> None)"

section \<open>URL helpers\<close>

definition absolute_url :: "pylib \<Rightarrow> string \<Rightarrow> string \<Rightarrow> string" where
  "absolute_url L base_url maybe_url = urljoin L base_url maybe_url"

definition same_domain :: "pylib \<Rightarrow> string \<Rightarrow> string \<Rightarrow> bool" where
  "same_domain L url_a url_b = (url_netloc L url_a = url_netloc L url_b)"

definition exclude_patterns :: "string list" where
  "exclude_patterns =
     [''/checkout'', ''/cart'', ''/sepet'', ''/login'', ''/giris'', ''/register'', ''/uye-ol'',
      ''/logout'', ''/cikis'', ''/search'', ''/ara'', ''/filter'', ''/compare'', ''/karsilastir'',
      ''/wishlist'', ''/favori'', ''/profile'', ''/profil'', ''/account'', ''/hesap'', ''/payment'',
      ''/odeme'', ''/api/'', ''/ajax/'', ''/ajax'', ''/json/'', ''.json'', ''.xml'', ''.rss'', ''#'',
      ''?print='', ''?export='']"

definition should_exclude_url :: "string \<Rightarrow> bool" where
  "should_exclude_url href =
     (if href = [] then True else any_in exclude_patterns (lower href))"

section \<open>Parsed pages\<close>

text \<open>
  What the program reads from a parsed document (\<open>BeautifulSoup(html_str, "html.parser")\<close>):
  \<^item> \<open>title_string\<close>: \<open>soup.title.string\<close>, when the document has a title element with a
    single string;
  \<^item> \<open>og_title_content\<close>: the \<open>content\<close> attribute of the first
    \<open>meta[property="og:title"]\<close>;
  \<^item> \<open>h1_text\<close>: \<open>get_text(" ", strip=True)\<close> of the first \<open>h1\<close>;
  \<^item> \<open>og_type_contents\<close>: the \<open>content\<close> attributes of the \<open>meta[property="og:type"]\<close>
    elements;
  \<^item> \<open>has_product_div\<close>, \<open>has_product_id\<close>, \<open>has_breadcrumb_nav\<close>: whether a \<open>div\<close> with a
    class matching \<open>product\<close>, an element with an id matching \<open>product\<close>, a \<open>nav\<close> with a
    class matching \<open>breadcrumb\<close> exists;
  \<^item> \<open>a_hrefs\<close>: the \<open>href\<close> of every \<open>a\<close> element that has one, in document order;
  \<^item> \<open>next_elements\<close>: for each of the five pagination selectors in order, the \<open>href\<close>
    and \<open>content\<close> attributes of the element \<open>select_one\<close> finds, if any;
  \<^item> \<open>ld_json_scripts\<close>: \<open>script.string or script.text or ""\<close> of every script element
    whose type contains \<open>ld+json\<close>, in document order;
  \<^item> \<open>sku_found\<close>, \<open>barcode_found\<close>: what \<open>find_sku(soup)\<close> and
    \<open>find_barcode(soup, None)\<close> return.
\<close>

record soup =
  title_string :: "string option"
  og_title_content :: "string option"
  h1_text :: "string option"
  og_type_contents :: "string list"
  has_product_div :: bool
  has_product_id :: bool
  has_breadcrumb_nav :: bool
  a_hrefs :: "string list"
  next_elements :: "(string option \<times> string option) option list"
  ld_json_scripts :: "string list"
  sku_found :: "string option"
  barcode_found :: "string option"

section \<open>Page classification\<close>

definition product_patterns :: "string list" where
  "product_patterns =
     [''/urun-'', ''/urun/'', ''/product/'', ''/p-'', ''/p/'', ''/detay-'', ''/detail/'']"

definition blog_patterns :: "string list" where
  "blog_patterns = [''/blog'', ''/haber'', ''/news'', ''/article'']"

definition category_patterns :: "string list" where
  "category_patterns = [''/kategori'', ''/category'', ''/katalog'', ''/catalog'']"

definition determine_page_type :: "pylib \<Rightarrow> string \<Rightarrow> soup \<Rightarrow> string" where
  "determine_page_type L url sp =
     (let url_l = lower url;
          path = url_path L url_l
      in if any_in product_patterns path then ''product''
         else if any_in blog_patterns path then ''blog''
         else if any_in category_patterns path then ''category''
         else if list_ex (\<lambda>x. x \<noteq> [] \<and> sublist ''product'' (lower x)) (og_type_contents sp)
           then ''product''
         else if list_ex (\<lambda>x. x \<noteq> [] \<and> (sublist ''article'' (lower x) \<or> sublist ''blog'' (lower x)))
                   (og_type_contents sp)
           then ''blog''
         else if has_product_div sp \<or> has_product_id sp then ''product''
         else if has_breadcrumb_nav sp \<and> sublist ''/urun'' path then ''product''
         else ''page'')"

section \<open>Identifier normalisation\<close>

definition normalize_sku :: "pylib \<Rightarrow> string option \<Rightarrow> string" where
  "normalize_sku L value =
     (case value of
        None \<Rightarrow> []
      | Some s \<Rightarrow>
          if s = [] then []
          else str_upper L (remove_spaces L (str_strip L s)))"

text \<open>
  The claim's words for the normalised identifier of a text: whitespace-stripped and
  uppercased. Nothing found, or an empty text, gives the empty identifier.
\<close>

definition stripped_upper :: "pylib \<Rightarrow> string option \<Rightarrow> string" where
  "stripped_upper L found =
     (case found of
        None \<Rightarrow> []
      | Some x \<Rightarrow> if x = [] then [] else str_upper L (remove_spaces L (str_strip L x)))"

text \<open>
  \<open>re.sub(r"[^a-z0-9\<dots>\s]", " ", v)\<close> of \<open>_normalize_title\<close>, whose class also lists six
  Turkish letters: on UTF-8 these are the two-byte sequences of \<open>tr_letter\<close>. Every
  other byte outside the class becomes a space. A code point of several bytes becomes as
  many spaces, and a non-ASCII whitespace character, which the class keeps, becomes
  spaces too: the next step, \<open>re.sub(r"\s+", " ", v)\<close>, collapses either like the one space
  or whitespace character of the program, and leaves no whitespace but single spaces
  for the final \<open>strip()\<close>.
\<close>

definition tr_letter :: "char \<Rightarrow> char \<Rightarrow> bool" where
  "tr_letter a b =
     ((a = CHR 0xC3 \<and> (b = CHR 0xA7 \<or> b = CHR 0xB6 \<or> b = CHR 0xBC))
      \<or> (a = CHR 0xC4 \<and> (b = CHR 0x9F \<or> b = CHR 0xB1))
      \<or> (a = CHR 0xC5 \<and> b = CHR 0x9F))"

definition title_char :: "char \<Rightarrow> char" where
  "title_char c = (if is_lower_az c \<or> is_digit c \<or> is_space c then c else CHR '' '')"

fun title_blank :: "string \<Rightarrow> string" where
  "title_blank (a # b # cs) =
     (if tr_letter a b then a # b # title_blank cs else title_char a # title_blank (b # cs))"
| "title_blank [a] = [title_char a]"
| "title_blank [] = []"

definition normalize_title :: "pylib \<Rightarrow> string option \<Rightarrow> string" where
  "normalize_title L value =
     (case value of
        None \<Rightarrow> []
      | Some s \<Rightarrow>
          if s = [] then []
          else strip (sub_runs is_space CHR '' '' (title_blank (str_lower L s))))"

section \<open>Structured data\<close>

record JsonLdProduct =
  ld_name :: "string option"
  ld_sku :: "string option"
  ld_description_html :: "string option"
  ld_price :: "rat option"
  ld_currency :: "string option"
  ld_image :: "string option"
  ld_images :: "string list option"
  ld_brand :: "string option"
  ld_barcode :: "string option"
  ld_category_path :: "string option"

text \<open>\<open>JsonLdProduct()\<close>: every field at its default \<open>None\<close>.\<close>

definition empty_product :: JsonLdProduct where
  "empty_product =
     \<lparr>ld_name = None, ld_sku = None, ld_description_html = None, ld_price = None,
      ld_currency = None, ld_image = None, ld_images = None, ld_brand = None,
      ld_barcode = None, ld_category_path = None\<rparr>"

text \<open>\<open>[d for d in data if isinstance(d, dict)]\<close>.\<close>

fun dicts_of :: "json list \<Rightarrow> (string \<times> json) list list" where
  "dicts_of [] = []"
| "dicts_of (JObj d # xs) = d # dicts_of xs"
| "dicts_of (x # xs) = dicts_of xs"

text \<open>
  The body of the first loop for one script block. A blank block and a block on which
  \<open>json.loads\<close> raises add nothing (\<open>continue\<close>).
\<close>

definition block_candidates :: "pylib \<Rightarrow> string \<Rightarrow> (string \<times> json) list list" where
  "block_candidates L raw =
     (if strip raw = [] then []
      else case json_loads L raw of
             None \<Rightarrow> []
           | Some (JObj d) \<Rightarrow> [d]
           | Some (JArr xs) \<Rightarrow> dicts_of xs
           | Some _ \<Rightarrow> [])"

definition collect_candidates :: "pylib \<Rightarrow> string list \<Rightarrow> (string \<times> json) list list" where
  "collect_candidates L scripts = concat (map (block_candidates L) scripts)"

text \<open>The two tests on \<open>t = node.get("@type") or node.get("@type".lower())\<close>.\<close>

definition type_is_product :: "pylib \<Rightarrow> (string \<times> json) list \<Rightarrow> bool" where
  "type_is_product L node =
     (case py_or (dict_get node ''@type'') (dict_get node (lower ''@type'')) of
        JArr items \<Rightarrow> list_ex (\<lambda>i. lower (py_str L i) = ''product'') items
      | JStr t \<Rightarrow> lower t = ''product''
      | _ \<Rightarrow> False)"

text \<open>The inner loop over \<open>node["@graph"]\<close>: the first member it accepts, if any.\<close>

fun find_sub :: "pylib \<Rightarrow> json list \<Rightarrow> (string \<times> json) list option" where
  "find_sub L [] = None"
| "find_sub L (JObj d # rest) =
     (if lower (py_str L (dict_get_default d ''@type'' (JStr []))) = ''product'' then Some d
      else find_sub L rest)"
| "find_sub L (x # rest) = find_sub L rest"

definition graph_product :: "pylib \<Rightarrow> (string \<times> json) list \<Rightarrow> (string \<times> json) list option" where
  "graph_product L node =
     (case map_of node ''@graph'' of
        Some (JArr subs) \<Rightarrow> find_sub L subs
      | _ \<Rightarrow> None)"

text \<open>
  The second loop, from the current value of \<open>product_node\<close>. A node whose own type
  matches ends the loop (\<open>break\<close>); the \<open>break\<close> of the inner loop only ends the inner
  loop, so after a match in \<open>@graph\<close> the outer loop goes on with the next node.
\<close>

fun select_product_node ::
  "pylib \<Rightarrow> (string \<times> json) list list \<Rightarrow> (string \<times> json) list option
     \<Rightarrow> (string \<times> json) list option" where
  "select_product_node L [] product_node = product_node"
| "select_product_node L (node # rest) product_node =
     (if type_is_product L node then Some node
      else select_product_node L rest
             (case graph_product L node of
                Some sub \<Rightarrow> Some sub
              | None \<Rightarrow> product_node))"

text \<open>\<open>[_absolute_url(base_url, str(u)) for u in image_val if isinstance(u, (str,))]\<close>.\<close>

fun image_urls_of :: "pylib \<Rightarrow> string \<Rightarrow> json list \<Rightarrow> string list" where
  "image_urls_of L base_url [] = []"
| "image_urls_of L base_url (JStr u # xs) = absolute_url L base_url u # image_urls_of L base_url xs"
| "image_urls_of L base_url (x # xs) = image_urls_of L base_url xs"

text \<open>The record built from the selected node.\<close>

definition product_of_node :: "pylib \<Rightarrow> string \<Rightarrow> (string \<times> json) list \<Rightarrow> JsonLdProduct" where
  "product_of_node L base_url product_node =
     (let name = dict_get product_node ''name'';
          sku = py_or (dict_get product_node ''sku'') (dict_get product_node ''mpn'');
          description0 = dict_get product_node ''description'';
          description =
            (case description0 of
               JObj d \<Rightarrow> if map_of d ''text'' \<noteq> None then dict_get d ''text'' else description0
             | _ \<Rightarrow> description0);
          image_val = dict_get product_node ''image'';
          image_list =
            (case image_val of
               JArr us \<Rightarrow> image_urls_of L base_url us
             | JStr u \<Rightarrow> [absolute_url L base_url u]
             | _ \<Rightarrow> []);
          image_url = (case image_list of [] \<Rightarrow> None | u # _ \<Rightarrow> Some u);
          offers0 = dict_get product_node ''offers'';
          offers = (case offers0 of JArr (x # _) \<Rightarrow> x | _ \<Rightarrow> offers0);
          price_val =
            (case offers of
               JObj d \<Rightarrow> py_or (py_or (dict_get d ''price'') (dict_get d ''lowPrice''))
                           (dict_get d ''highPrice'')
             | _ \<Rightarrow> JNull);
          currency = (case offers of JObj d \<Rightarrow> dict_get d ''priceCurrency'' | _ \<Rightarrow> JNull);
          price_num =
            (if price_val \<noteq> JNull then clean_price_to_number (Some (py_str L price_val)) else None);
          brand_node = dict_get product_node ''brand'';
          brand_name =
            (case brand_node of
               JObj d \<Rightarrow> dict_get d ''name''
             | JStr b \<Rightarrow> brand_node
             | _ \<Rightarrow> JNull);
          barcode =
            py_or (py_or (py_or (py_or (dict_get product_node ''gtin13'')
                                       (dict_get product_node ''gtin14''))
                                (dict_get product_node ''gtin12''))
                         (dict_get product_node ''gtin8''))
                  (dict_get product_node ''isbn'');
          category_val = dict_get product_node ''category''
      in \<lparr>ld_name = str_or_none name,
          ld_sku = str_or_none sku,
          ld_description_html = str_or_none description,
          ld_price = price_num,
          ld_currency = str_or_none currency,
          ld_image = image_url,
          ld_images = (if image_list = [] then None else Some image_list),
          ld_brand = str_or_none brand_name,
          ld_barcode = (if truthy barcode then Some (py_str L barcode) else None),
          ld_category_path = str_or_none category_val\<rparr>)"

definition parse_ld_json_product :: "pylib \<Rightarrow> soup \<Rightarrow> string \<Rightarrow> JsonLdProduct" where
  "parse_ld_json_product L sp base_url =
     (let candidates = collect_candidates L (ld_json_scripts sp) in
      case select_product_node L candidates None of
        None \<Rightarrow> empty_product
      | Some product_node \<Rightarrow>
          if product_node = [] then empty_product
          else product_of_node L base_url product_node)"

text \<open>
  The spec's words for the selection: the candidates are the collected objects in
  document order, each followed by the objects of its \<open>@graph\<close> list; a candidate is
  Product-typed when its \<open>@type\<close> is the string "Product" or a list that includes it,
  compared without case; the first Product-typed candidate is selected.
\<close>

definition spec_product_typed :: "(string \<times> json) list \<Rightarrow> bool" where
  "spec_product_typed node =
     (case dict_get node ''@type'' of
        JStr t \<Rightarrow> lower t = ''product''
      | JArr items \<Rightarrow> list_ex (\<lambda>i. case i of JStr t \<Rightarrow> lower t = ''product'' | _ \<Rightarrow> False) items
      | _ \<Rightarrow> False)"

definition spec_graph_members :: "(string \<times> json) list \<Rightarrow> (string \<times> json) list list" where
  "spec_graph_members node =
     (case map_of node ''@graph'' of Some (JArr subs) \<Rightarrow> dicts_of subs | _ \<Rightarrow> [])"

definition spec_candidates :: "pylib \<Rightarrow> string list \<Rightarrow> (string \<times> json) list list" where
  "spec_candidates L scripts =
     concat (map (\<lambda>node. node # spec_graph_members node) (collect_candidates L scripts))"

definition spec_first_product :: "pylib \<Rightarrow> string list \<Rightarrow> (string \<times> json) list option" where
  "spec_first_product L scripts = find spec_product_typed (spec_candidates L scripts)"

section \<open>Link discovery\<close>

text \<open>
  The body of the loop over the anchors for one \<open>href\<close>: the normalised URL that is
  added to \<open>found\<close>, if any.
\<close>

definition anchor_target :: "pylib \<Rightarrow> string \<Rightarrow> string \<Rightarrow> string option" where
  "anchor_target L base_url href =
     (if href = [] then None
      else let abs_url = absolute_url L base_url href in
           if same_domain L base_url abs_url \<and> \<not> should_exclude_url abs_url
           then let clean_url = urlunparse3 L (url_scheme L abs_url) (url_netloc L abs_url)
                                  (url_path L abs_url)
                in if clean_url \<noteq> [] \<and> clean_url \<noteq> base_url then Some clean_url else None
           else None)"

text \<open>
  The loop over \<open>next_candidates\<close>: \<open>candidate = el.get("href") or el.get("content")\<close>
  of the first selector whose element has one.
\<close>

fun first_next ::
  "pylib \<Rightarrow> string \<Rightarrow> (string option \<times> string option) option list \<Rightarrow> string option" where
  "first_next L base_url [] = None"
| "first_next L base_url (None # els) = first_next L base_url els"
| "first_next L base_url (Some (href, content) # els) =
     (let c = (case content of None \<Rightarrow> [] | Some x \<Rightarrow> x);
          candidate = (case href of None \<Rightarrow> c | Some h \<Rightarrow> if h \<noteq> [] then h else c)
      in if candidate \<noteq> [] then Some (absolute_url L base_url candidate)
         else first_next L base_url els)"

definition discover_all_links_from_page ::
  "pylib \<Rightarrow> string \<Rightarrow> soup \<Rightarrow> string list \<times> string option" where
  "discover_all_links_from_page L base_url sp =
     (set_order L (remdups (List.map_filter (anchor_target L base_url) (a_hrefs sp))),
      first_next L base_url (next_elements sp))"

section \<open>The crawler\<close>

record crawl_page =
  url :: string
  title :: string
  slug :: string
  ptype :: string

text \<open>
  \<open>str.title()\<close> on ASCII text, for the library instance of the examples; the flag says
  whether the previous character is cased.
\<close>

fun title_case :: "bool \<Rightarrow> string \<Rightarrow> string" where
  "title_case prev [] = []"
| "title_case prev (c # cs) =
     (if is_upper_az c \<or> is_lower_az c
      then (if prev then lower_char c else upper_char c) # title_case True cs
      else c # title_case False cs)"

text \<open>The title of a visited page; a title that is \<open>None\<close> reads as the empty string.\<close>

definition page_title :: "pylib \<Rightarrow> string \<Rightarrow> soup \<Rightarrow> string" where
  "page_title L current sp =
     (let t1 = (case title_string sp of
                  None \<Rightarrow> []
                | Some x \<Rightarrow> if x \<noteq> [] then str_strip L x else []);
          t2 = (if t1 \<noteq> [] then t1
                else case og_title_content sp of
                       None \<Rightarrow> t1
                     | Some x \<Rightarrow> if x \<noteq> [] then str_strip L x else t1);
          t3 = (if t2 \<noteq> [] then t2 else case h1_text sp of None \<Rightarrow> t2 | Some x \<Rightarrow> x)
      in if t3 \<noteq> [] then t3
         else str_title L
                (replace_char CHR ''-'' CHR '' ''
                  (last (py_split CHR ''/'' (strip_chars ''/'' (url_path L current))))))"

definition page_slug :: "pylib \<Rightarrow> string \<Rightarrow> string \<Rightarrow> string" where
  "page_slug L current ttl =
     (let path = strip_chars ''/'' (url_path L current);
          url_slug = (if path \<noteq> [] then last (py_split CHR ''/'' path) else [])
      in if ttl \<noteq> [] then slugify_with (nfkd L) ttl else url_slug)"

text \<open>The entry that the loop appends to \<open>all_pages\<close> for a fetched page.\<close>

definition page_record :: "pylib \<Rightarrow> string \<Rightarrow> soup \<Rightarrow> crawl_page" where
  "page_record L current sp =
     (let page_type = determine_page_type L current sp;
          ttl = page_title L current sp
      in \<lparr>url = current, title = ttl, slug = page_slug L current ttl, ptype = page_type\<rparr>)"

text \<open>
  The variables of \<open>find_all_page_links\<close>, with two history lists that the program does
  not keep: \<open>fetched\<close>, the arguments of the calls of \<open>fetch_html\<close> so far, and
  \<open>enqueued\<close>, every URL that was put on \<open>to_visit\<close> so far.
\<close>

record crawl_state =
  to_visit :: "string list"
  visited :: "string set"
  all_pages :: "crawl_page list"
  pages :: nat
  fetched :: "string list"
  enqueued :: "string list"

text \<open>
  One iteration of the loop body. \<open>web u\<close> is what \<open>fetch_html(u)\<close> returns, parsed;
  \<open>None\<close> stands for \<open>None\<close> and for the empty document, which the program treats alike.
\<close>

definition crawl_step ::
  "pylib \<Rightarrow> (string \<Rightarrow> soup option) \<Rightarrow> string \<Rightarrow> soup \<Rightarrow> crawl_state \<Rightarrow> crawl_state" where
  "crawl_step L web start_url start_html st =
     (case to_visit st of
        [] \<Rightarrow> st
      | current # rest \<Rightarrow>
          if current \<in> visited st \<or> should_exclude_url current
          then st\<lparr>to_visit := rest\<rparr>
          else
            let html_str = (if current = start_url then Some start_html else web current);
                log = (if current = start_url then fetched st else fetched st @ [current]);
                seen = insert current (visited st)
            in case html_str of
                 None \<Rightarrow>
                   st\<lparr>to_visit := rest, visited := seen, pages := pages st + 1, fetched := log\<rparr>
               | Some sp \<Rightarrow>
                   let page = page_record L current sp;
                       found_here = fst (discover_all_links_from_page L current sp);
                       next_link = snd (discover_all_links_from_page L current sp);
                       new_links = filter (\<lambda>u. u \<notin> seen \<and> u \<notin> set rest) found_here;
                       queue = rest @ new_links;
                       more = (case next_link of
                                 None \<Rightarrow> []
                               | Some n \<Rightarrow>
                                   if n \<noteq> [] \<and> n \<notin> seen \<and> n \<notin> set queue then [n] else [])
                   in st\<lparr>to_visit := queue @ more, visited := seen,
                         all_pages := all_pages st @ [page], pages := pages st + 1,
                         fetched := log, enqueued := enqueued st @ new_links @ more\<rparr>)"

lemma crawl_step_decreases:
  assumes "to_visit st \<noteq> []" "int (pages st) < max_pages"
  shows "(nat (max_pages - int (pages (crawl_step L web start_url start_html st))) <
            nat (max_pages - int (pages st)))
         \<or> (pages (crawl_step L web start_url start_html st) = pages st
             \<and> length (to_visit (crawl_step L web start_url start_html st))
                 < length (to_visit st))"
proof (cases "to_visit st")
  case Nil
  with assms show ?thesis by simp
next
  case (Cons current rest)
  show ?thesis
  proof (cases "current \<in> visited st \<or> should_exclude_url current")
    case True
    with Cons show ?thesis by (simp add: crawl_step_def)
  next
    case False
    with Cons have "pages (crawl_step L web start_url start_html st) = pages st + 1"
      by (simp add: crawl_step_def Let_def split: option.split)
    with assms show ?thesis by simp
  qed
qed

text \<open>\<open>while to_visit and pages < max_pages\<close>.\<close>

function crawl_loop ::
  "pylib \<Rightarrow> (string \<Rightarrow> soup option) \<Rightarrow> string \<Rightarrow> soup \<Rightarrow> int \<Rightarrow> crawl_state \<Rightarrow> crawl_state" where
  "crawl_loop L web start_url start_html max_pages st =
     (if to_visit st \<noteq> [] \<and> int (pages st) < max_pages
      then crawl_loop L web start_url start_html max_pages
             (crawl_step L web start_url start_html st)
      else st)"
  by pat_completeness auto
termination
  apply (relation "measures
    [\<lambda>(L, web, start_url, start_html, max_pages, st). nat (max_pages - int (pages st)),
     \<lambda>(L, web, start_url, start_html, max_pages, st). length (to_visit st)]")
   apply simp
  subgoal for L web start_url start_html max_pages st
    using crawl_step_decreases [of st max_pages L web start_url start_html] by auto
  done

declare crawl_loop.simps [simp del]

text \<open>
  The final values of the variables, and the value \<open>find_all_page_links\<close> returns.
\<close>

definition crawl :: "pylib \<Rightarrow> (string \<Rightarrow> soup option) \<Rightarrow> string \<Rightarrow> int \<Rightarrow> crawl_state" where
  "crawl L web start_url max_pages =
     (case web start_url of
        None \<Rightarrow>
          \<lparr>to_visit = [], visited = {}, all_pages = [], pages = 0,
           fetched = [start_url], enqueued = []\<rparr>
      | Some start_html \<Rightarrow>
          crawl_loop L web start_url start_html max_pages
            \<lparr>to_visit = [start_url], visited = {}, all_pages = [], pages = 0,
             fetched = [start_url], enqueued = [start_url]\<rparr>)"

definition find_all_page_links ::
  "pylib \<Rightarrow> (string \<Rightarrow> soup option) \<Rightarrow> string \<Rightarrow> int \<Rightarrow> crawl_page list" where
  "find_all_page_links L web start_url max_pages = all_pages (crawl L web start_url max_pages)"

section \<open>The destination index\<close>

text \<open>
  A row of the destination export, read with \<open>dtype=str\<close> and \<open>fillna("")\<close>: the columns
  \<open>Slug\<close>, \<open>SKU\<close>, \<open>Barkod Listesi\<close> and \<open>\<dots>sim\<close> (the title). A missing column reads as
  the empty string, which the program treats like a missing value.
\<close>

record ikas_row =
  col_slug :: string
  col_sku :: string
  col_barkod_listesi :: string
  col_isim :: string

record ikas_index =
  sku_to_slug :: "string \<rightharpoonup> string"
  barcode_to_slug :: "string \<rightharpoonup> string"
  slug_set :: "string set"
  title_to_slug :: "(string \<times> string) list"

definition empty_index :: ikas_index where
  "empty_index =
     \<lparr>sku_to_slug = Map.empty, barcode_to_slug = Map.empty, slug_set = {}, title_to_slug = []\<rparr>"

text \<open>The loop over \<open>bar_list.split(";")\<close>.\<close>

fun add_barcodes ::
  "pylib \<Rightarrow> string \<Rightarrow> string list \<Rightarrow> (string \<rightharpoonup> string) \<Rightarrow> (string \<rightharpoonup> string)" where
  "add_barcodes L s [] m = m"
| "add_barcodes L s (b # bs) m =
     (let b_n = normalize_sku L (Some b)
      in add_barcodes L s bs (if b_n \<noteq> [] then m(b_n \<mapsto> s) else m))"

text \<open>The body of the loop over \<open>ikas_df.iterrows()\<close>.\<close>

definition index_row :: "pylib \<Rightarrow> ikas_index \<Rightarrow> ikas_row \<Rightarrow> ikas_index" where
  "index_row L idx r =
     (let s = str_strip L (col_slug r);
          sku_n = normalize_sku L (Some (col_sku r));
          bar_list = str_strip L (col_barkod_listesi r);
          title_norm = normalize_title L (Some (col_isim r))
      in \<lparr>sku_to_slug = (if sku_n \<noteq> [] then (sku_to_slug idx)(sku_n \<mapsto> s) else sku_to_slug idx),
          barcode_to_slug =
            (if bar_list \<noteq> []
             then add_barcodes L s (py_split CHR '';'' bar_list) (barcode_to_slug idx)
             else barcode_to_slug idx),
          slug_set = insert s (slug_set idx),
          title_to_slug =
            (if title_norm \<noteq> [] then title_to_slug idx @ [(title_norm, s)]
             else title_to_slug idx)\<rparr>)"

text \<open>The indexes after the export was read; \<open>None\<close> when no export was uploaded.\<close>

definition build_index :: "pylib \<Rightarrow> ikas_row list option \<Rightarrow> ikas_index" where
  "build_index L ikas_csv =
     (case ikas_csv of
        None \<Rightarrow> empty_index
      | Some rows \<Rightarrow> foldl (index_row L) empty_index rows)"

section \<open>Matching and the redirect file\<close>

text \<open>
  The values of \<open>target_path\<close>, \<open>sku\<close>, \<open>barcode\<close>, \<open>confidence\<close> and \<open>reason\<close> after the
  branch on the page type. The confidence is the exact decimal of the source's constant;
  \<open>round(confidence, 3)\<close> leaves the three constants as they are.
\<close>

record match_result =
  target_path :: string
  m_sku :: string
  m_barcode :: string
  confidence :: rat
  reason :: string

text \<open>
  The \<open>try\<close> block of the product branch. \<open>sku\<close> and \<open>barcode\<close> stay empty when the page
  cannot be fetched. An exception in the block leaves the variables as a run with absent
  values does, so it has no case of its own.
\<close>

definition extract_ids ::
  "pylib \<Rightarrow> (string \<Rightarrow> soup option) \<Rightarrow> string \<Rightarrow> string \<times> string" where
  "extract_ids L web old_url =
     (case web old_url of
        None \<Rightarrow> ([], [])
      | Some sp \<Rightarrow>
          (normalize_sku L (Some (case sku_found sp of None \<Rightarrow> [] | Some x \<Rightarrow> x)),
           normalize_sku L (Some (case barcode_found sp of None \<Rightarrow> [] | Some x \<Rightarrow> x))))"

definition match_page ::
  "pylib \<Rightarrow> ikas_index \<Rightarrow> (string \<Rightarrow> soup option) \<Rightarrow> crawl_page \<Rightarrow> match_result" where
  "match_page L idx web page =
     (if ptype page = ''product''
      then let sku = fst (extract_ids L web (url page));
               barcode = snd (extract_ids L web (url page))
           in if sku \<noteq> [] \<and> sku_to_slug idx sku \<noteq> None
              then \<lparr>target_path = ''/urun/'' @ the (sku_to_slug idx sku), m_sku = sku,
                    m_barcode = barcode, confidence = 1, reason = ''sku''\<rparr>
              else if barcode \<noteq> [] \<and> barcode_to_slug idx barcode \<noteq> None
              then \<lparr>target_path = ''/urun/'' @ the (barcode_to_slug idx barcode), m_sku = sku,
                    m_barcode = barcode, confidence = 98 / 100, reason = ''barcode''\<rparr>
              else \<lparr>target_path = [], m_sku = sku, m_barcode = barcode, confidence = 0,
                    reason = ''unmatched''\<rparr>
      else if ptype page = ''category''
      then \<lparr>target_path = ''/'' @ slug page, m_sku = [], m_barcode = [], confidence = 0,
            reason = ''category''\<rparr>
      else if ptype page = ''blog''
      then \<lparr>target_path = ''/blog/'' @ slug page, m_sku = [], m_barcode = [], confidence = 0,
            reason = ''blog''\<rparr>
      else if ptype page = ''page''
      then \<lparr>target_path = ''/pages/'' @ slug page, m_sku = [], m_barcode = [], confidence = 0,
            reason = ''page''\<rparr>
      else \<lparr>target_path = [], m_sku = [], m_barcode = [], confidence = 0,
            reason = ''non_product''\<rparr>)"

record redirect_row =
  from_url :: string
  to_url :: string
  from_slug :: string
  to_slug :: string
  r_title :: string
  r_sku :: string
  r_type :: string

text \<open>The last segment of a path: \<open>p.strip("/").split("/")[-1] if p else ""\<close>.\<close>

definition last_segment :: "string \<Rightarrow> string" where
  "last_segment p = (if p \<noteq> [] then last (py_split CHR ''/'' (strip_chars ''/'' p)) else [])"

definition redirect_of :: "pylib \<Rightarrow> crawl_page \<Rightarrow> match_result \<Rightarrow> redirect_row" where
  "redirect_of L page m =
     (let from_path0 = url_path L (url page);
          from_path = (if prefix ''/'' from_path0 then from_path0 else ''/'' @ from_path0);
          to_path0 = (if target_path m \<noteq> [] then url_path L (target_path m) else []);
          to_path = (if prefix ''/'' to_path0 then to_path0
                     else if to_path0 \<noteq> [] then ''/'' @ to_path0 else [])
      in \<lparr>from_url = url page, to_url = target_path m, from_slug = last_segment from_path,
          to_slug = last_segment to_path, r_title = title page, r_sku = m_sku m,
          r_type = ptype page\<rparr>)"

record diagnostic =
  d_from_url :: string
  d_to_url :: string
  d_type :: string
  d_reason :: string
  d_confidence :: rat

definition diagnostic_of :: "crawl_page \<Rightarrow> match_result \<Rightarrow> diagnostic" where
  "diagnostic_of page m =
     \<lparr>d_from_url = url page, d_to_url = target_path m, d_type = ptype page,
      d_reason = reason m, d_confidence = confidence m\<rparr>"

text \<open>The loop over the crawled pages: \<open>redirects_rows\<close> and \<open>diagnostics\<close>.\<close>

definition redirects_rows ::
  "pylib \<Rightarrow> ikas_index \<Rightarrow> (string \<Rightarrow> soup option) \<Rightarrow> crawl_page list \<Rightarrow> redirect_row list" where
  "redirects_rows L idx web pgs =
     map (\<lambda>page. redirect_of L page (match_page L idx web page)) pgs"

definition diagnostics ::
  "pylib \<Rightarrow> ikas_index \<Rightarrow> (string \<Rightarrow> soup option) \<Rightarrow> crawl_page list \<Rightarrow> diagnostic list" where
  "diagnostics L idx web pgs = map (\<lambda>page. diagnostic_of page (match_page L idx web page)) pgs"

text \<open>
  The redirect file: the columns \<open>ID\<close>, \<open>Kaynak Adres\<close>, \<open>Y\<dots>nlendirilecek Adres\<close>,
  \<open>Ge\<dots>ici Y\<dots>nlendirme (302)\<close> and \<open>Silindi mi?\<close>.
\<close>

record ikas301_row =
  col_id :: string
  kaynak_adres :: string
  yonlendirilecek_adres :: string
  gecici_yonlendirme_302 :: string
  silindi_mi :: string

definition kaynak_of :: "pylib \<Rightarrow> redirect_row \<Rightarrow> string" where
  "kaynak_of L r =
     (let path = (if from_url r \<noteq> [] then url_path L (from_url r) else [])
      in if path \<noteq> [] then (if prefix ''/'' path then path else ''/'' @ path)
         else let s = from_slug r
              in if s \<noteq> [] \<and> \<not> prefix ''/'' s then ''/'' @ s else s)"

definition yon_of :: "redirect_row \<Rightarrow> string" where
  "yon_of r = (let s = to_slug r in if s \<noteq> [] \<and> \<not> prefix ''/'' s then ''/'' @ s else s)"

definition ikas301 :: "pylib \<Rightarrow> redirect_row list \<Rightarrow> ikas301_row list" where
  "ikas301 L rows =
     map (\<lambda>r. \<lparr>col_id = [], kaynak_adres = kaynak_of L r, yonlendirilecek_adres = yon_of r,
               gecici_yonlendirme_302 = ''false'', silindi_mi = ''false''\<rparr>) rows"

section \<open>A library instance for the examples\<close>

text \<open>
  A small instance of the library functions, for the examples below only: every theorem
  that is not an example holds for all libraries. Its string methods are the ASCII
  functions of the first section, its \<open>nfkd\<close> the table of the Turkish letters; they agree
  with Python on the texts of the examples. It agrees with \<open>urllib.parse\<close> on the URLs of
  the examples, which have the form \<open>scheme://host/path\<close> or \<open>/path\<close>, and with
  \<open>json.loads\<close> on the documents below (\<open>broken_doc\<close> is cut off and does not parse).
\<close>

definition demo_rest :: "string \<Rightarrow> string" where
  "demo_rest u = (if sublist ''://'' u then drop 3 (dropWhile (\<lambda>c. c \<noteq> CHR '':'') u) else u)"

definition demo_scheme :: "string \<Rightarrow> string" where
  "demo_scheme u = (if sublist ''://'' u then takeWhile (\<lambda>c. c \<noteq> CHR '':'') u else [])"

definition demo_netloc :: "string \<Rightarrow> string" where
  "demo_netloc u =
     (if sublist ''://'' u then takeWhile (\<lambda>c. c \<notin> set ''/?#'') (demo_rest u) else [])"

definition demo_path :: "string \<Rightarrow> string" where
  "demo_path u =
     takeWhile (\<lambda>c. c \<notin> set ''?#'')
       (if sublist ''://'' u then dropWhile (\<lambda>c. c \<notin> set ''/?#'') (demo_rest u) else u)"

definition demo_urljoin :: "string \<Rightarrow> string \<Rightarrow> string" where
  "demo_urljoin base u =
     (if sublist ''://'' u then u
      else if prefix ''/'' u then demo_scheme base @ ''://'' @ demo_netloc base @ u
      else u)"

definition demo_urlunparse3 :: "string \<Rightarrow> string \<Rightarrow> string \<Rightarrow> string" where
  "demo_urlunparse3 s n p =
     (if s \<noteq> [] then s @ '':'' else [])
     @ (if n \<noteq> [] then ''//'' @ n @ (if p \<noteq> [] \<and> \<not> prefix ''/'' p then ''/'' @ p else p)
        else p)"

definition graph_doc :: string where
  "graph_doc = ''{\"@graph\": [{\"@type\": \"Product\", \"name\": \"A\"}]}''"

definition product_doc :: string where
  "product_doc = ''{\"@type\": \"Product\", \"name\": \"B\"}''"

definition website_doc :: string where
  "website_doc = ''{\"@type\": \"WebSite\", \"name\": \"Magaza\"}''"

definition broken_doc :: string where
  "broken_doc = ''{\"@type\": \"Product\", \"name\": ''"

definition demo_loads :: "string \<Rightarrow> json option" where
  "demo_loads raw =
     (if raw = graph_doc
      then Some (JObj [(''@graph'', JArr [JObj [(''@type'', JStr ''Product''), (''name'', JStr ''A'')]])])
      else if raw = product_doc
      then Some (JObj [(''@type'', JStr ''Product''), (''name'', JStr ''B'')])
      else if raw = website_doc
      then Some (JObj [(''@type'', JStr ''WebSite''), (''name'', JStr ''Magaza'')])
      else None)"

definition demo_lib :: pylib where
  "demo_lib =
     \<lparr>json_loads = demo_loads, py_repr = (\<lambda>v. ''None''), urljoin = demo_urljoin,
      url_scheme = demo_scheme, url_netloc = demo_netloc, url_path = demo_path,
      urlunparse3 = demo_urlunparse3, set_order = (\<lambda>xs. xs),
      str_strip = strip, str_lower = lower, str_upper = upper, str_title = title_case False,
      remove_spaces = filter (\<lambda>c. \<not> is_space c), nfkd = nfkd_tr\<rparr>"

text \<open>A page with nothing on it, to build example pages from.\<close>

definition blank_page :: soup where
  "blank_page =
     \<lparr>title_string = None, og_title_content = None, h1_text = None, og_type_contents = [],
      has_product_div = False, has_product_id = False, has_breadcrumb_nav = False,
      a_hrefs = [], next_elements = [], ld_json_scripts = [], sku_found = None,
      barcode_found = None\<rparr>"

text \<open>
  A small shop: a home page that links to a product, a blog post, a category, the login
  page and another site, and that has a pagination link; and a destination export of two
  products.
\<close>

definition demo_home :: soup where
  "demo_home =
     blank_page\<lparr>title_string := Some ''Magaza'',
                a_hrefs := [''/urun/test-urun'', ''/blog/yazi'', ''/login'',
                            ''https://b.com/x'', ''/kategori/giyim''],
                next_elements := [None, None, None, Some (Some ''/liste/2'', None), None]\<rparr>"

definition demo_web :: "string \<Rightarrow> soup option" where
  "demo_web u =
     (if u = ''https://a.com'' then Some demo_home
      else if u = ''https://a.com/urun/test-urun''
      then Some (blank_page\<lparr>title_string := Some ''Test Urun'', sku_found := Some ''abc-1'',
                             barcode_found := Some ''8690000000035''\<rparr>)
      else if u = ''https://a.com/blog/yazi''
      then Some (blank_page\<lparr>title_string := Some ''Yazi''\<rparr>)
      else if u = ''https://a.com/kategori/giyim''
      then Some (blank_page\<lparr>h1_text := Some ''Giyim''\<rparr>)
      else if u = ''https://a.com/login''
      then Some (blank_page\<lparr>title_string := Some ''Giris''\<rparr>)
      else None)"


definition demo_export :: "ikas_row list" where
  "demo_export =
     [\<lparr>col_slug = ''test-urun'', col_sku = ''abc-1'',
       col_barkod_listesi = ''8690000000011;8690000000028'', col_isim = ''Test Urun''\<rparr>,
      \<lparr>col_slug = ''diger-urun'', col_sku = ''xyz 9'',
       col_barkod_listesi = ''8690000000035'', col_isim = ''Diger Urun''\<rparr>]"

text \<open>The same export with every title replaced.\<close>

definition demo_export_retitled :: "ikas_row list" where
  "demo_export_retitled = map (\<lambda>r. r\<lparr>col_isim := ''Baska Isim''\<rparr>) demo_export"

section \<open>Verified properties\<close>

subsection \<open>Price parsing\<close>

lemma py_split_nonempty: "py_split sep s \<noteq> []"
  by (induction s) (auto split: list.splits)

lemma py_split_length: "length (py_split sep s) = Suc (count_list s sep)"
  by (induction s) (auto split: list.splits simp: py_split_nonempty)

lemma py_split_absent: "sep \<notin> set s \<Longrightarrow> py_split sep s = [s]"
  by (induction s) auto

lemma last_py_split_one:
  "count_list s sep = 1 \<Longrightarrow> last (py_split sep s) = tl (dropWhile (\<lambda>c. c \<noteq> sep) s)"
proof (induction s)
  case Nil
  then show ?case by simp
next
  case (Cons c cs)
  show ?case
  proof (cases "c = sep")
    case True
    with Cons.prems have "count_list cs sep = 0" by simp
    then have "sep \<notin> set cs" by (simp add: count_list_0_iff)
    with True show ?thesis by (simp add: py_split_absent)
  next
    case False
    with Cons.prems have one: "count_list cs sep = 1" by simp
    then have "length (py_split sep cs) = 2" by (simp add: py_split_length)
    then obtain w v where "py_split sep cs = [w, v]"
      by (cases "py_split sep cs" rule: list.exhaust; simp)
        (metis One_nat_def Suc_length_conv length_0_conv)
    with False Cons.IH [OF one] show ?thesis by simp
  qed
qed


lemma clean_price_general:
  assumes ne: "strip s \<noteq> []"
  shows "(let t = filter price_keep (strip s) in
          clean_price_to_number (Some s) =
            (if CHR '','' \<in> set t \<and> CHR ''.'' \<in> set t
             then py_float (replace_char CHR '','' CHR ''.'' (remove_char CHR ''.'' t))
             else if CHR ''.'' \<notin> set t \<and> count_list t CHR '','' = 1
                       \<and> length (comma_suffix t) \<in> {1, 2}
                  then py_float (replace_char CHR '','' CHR ''.'' t)
                  else py_float (remove_char CHR '','' t)))"
proof -
  define t where "t = filter price_keep (strip s)"
  have s_ne: "s \<noteq> []" using ne by (auto simp: strip_def strip_where_def)
  have lhs: "clean_price_to_number (Some s) = py_float (price_separators t)"
    using ne s_ne by (simp add: clean_price_to_number_def t_def)
  have suf: "count_list t CHR '','' = 1 \<Longrightarrow> last (py_split CHR '','' t) = comma_suffix t"
    by (simp add: last_py_split_one comma_suffix_def)
  have cnt: "count_list t CHR '','' = 1 \<Longrightarrow> CHR '','' \<in> set t"
    by (metis count_list_0_iff zero_neq_one)
  have ps: "price_separators t =
          (if CHR '','' \<in> set t \<and> CHR ''.'' \<in> set t
             then replace_char CHR '','' CHR ''.'' (remove_char CHR ''.'' t)
             else if CHR ''.'' \<notin> set t \<and> count_list t CHR '','' = 1
                       \<and> length (comma_suffix t) \<in> {1, 2}
                  then replace_char CHR '','' CHR ''.'' t
                  else remove_char CHR '','' t)"
  proof (cases "count_list t CHR '','' = 1")
    case True
    with suf cnt show ?thesis unfolding price_separators_def by auto
  next
    case False
    then show ?thesis unfolding price_separators_def by auto
  qed
  show ?thesis unfolding Let_def t_def [symmetric] lhs ps by auto
qed

text \<open>
  Claim C2. \<open>clean_price_to_number\<close> maps "1.234,56 TL" to 1234.56, "19,99" to 19.99 and
  "1,234" to 1234. In general, on the cleaned text: with both a comma and a dot present,
  the dots are thousands separators and the comma is the decimal separator; with no dot,
  exactly one comma and one or two characters after it, the comma is the decimal
  separator; in every other case the commas are thousands separators.
\<close>

theorem clean_price_rule:
  "clean_price_to_number (Some ''1.234,56 TL'') = Some (123456 / 100)
   \<and> clean_price_to_number (Some ''19,99'') = Some (1999 / 100)
   \<and> clean_price_to_number (Some ''1,234'') = Some 1234
   \<and> (\<forall>s. strip s \<noteq> [] \<longrightarrow>
         (let t = filter price_keep (strip s) in
          clean_price_to_number (Some s) =
            (if CHR '','' \<in> set t \<and> CHR ''.'' \<in> set t
             then py_float (replace_char CHR '','' CHR ''.'' (remove_char CHR ''.'' t))
             else if CHR ''.'' \<notin> set t \<and> count_list t CHR '','' = 1
                       \<and> length (comma_suffix t) \<in> {1, 2}
                  then py_float (replace_char CHR '','' CHR ''.'' t)
                  else py_float (remove_char CHR '','' t))))"
proof (intro conjI allI impI)
  show "clean_price_to_number (Some ''1.234,56 TL'') = Some (123456 / 100)"
    by code_simp
  show "clean_price_to_number (Some ''19,99'') = Some (1999 / 100)"
    by code_simp
  show "clean_price_to_number (Some ''1,234'') = Some 1234"
    by code_simp
qed (rule clean_price_general)

theorem clean_price_rule_witness:
  "strip ''12,5 TL'' \<noteq> [] \<and> clean_price_to_number (Some ''12,5 TL'') = Some (125 / 10)"
proof -
  have a: "strip ''12,5 TL'' \<noteq> []" by code_simp
  have b: "py_float ''12.5'' = Some (125 / 10)" by code_simp
  have c: "filter price_keep (strip ''12,5 TL'') = ''12,5''" by code_simp
  have d: "comma_suffix ''12,5'' = ''5''" by code_simp
  have e: "replace_char CHR '','' CHR ''.'' ''12,5'' = ''12.5''" by code_simp
  note r = clean_price_rule [THEN conjunct2, THEN conjunct2, THEN conjunct2, rule_format, OF a]
  from r have "clean_price_to_number (Some ''12,5 TL'') = Some (125 / 10)"
    unfolding c Let_def d e b by simp
  with a show ?thesis by (rule conjI)
qed

subsection \<open>Slug generation\<close>

lemma sub_runs_hit:
  "P c \<Longrightarrow> sub_runs P r (c # cs) = r # sub_runs P r (dropWhile P cs)"
  by simp

lemma sub_runs_skip:
  "P c \<Longrightarrow> P d \<Longrightarrow> sub_runs P r (c # d # cs) = sub_runs P r (d # cs)"
  by simp

lemma sub_runs_keep:
  "\<not> P c \<Longrightarrow> sub_runs P r (c # cs) = c # sub_runs P r cs"
  by simp

lemma alnum_words_skip: "\<not> slug_char c \<Longrightarrow> alnum_words (c # cs) = alnum_words cs"
  by simp

lemma alnum_words_last: "slug_char c \<Longrightarrow> alnum_words [c] = [[c]]"
  by simp

lemma alnum_words_break:
  "slug_char c \<Longrightarrow> \<not> slug_char d \<Longrightarrow> alnum_words (c # d # cs) = [c] # alnum_words (d # cs)"
  by simp

lemma alnum_words_extend:
  "slug_char c \<Longrightarrow> slug_char d \<Longrightarrow>
     alnum_words (c # d # cs) = (c # hd (alnum_words (d # cs))) # tl (alnum_words (d # cs))"
  by simp

lemma alnum_words_head:
  "slug_char d \<Longrightarrow> alnum_words (d # cs) \<noteq> [] \<and> hd (alnum_words (d # cs)) \<noteq> []
      \<and> hd (hd (alnum_words (d # cs))) = d"
  by simp

lemma alnum_words_shape:
  "w \<in> set (alnum_words s) \<Longrightarrow> w \<noteq> [] \<and> list_all slug_char w"
proof (induction s arbitrary: w rule: alnum_words.induct)
  case 1
  then show ?case by simp
next
  case (2 c cs)
  show ?case
  proof (cases "slug_char c")
    case True
    with 2 show ?thesis
      by (auto simp: list_all_iff dest: set_takeWhileD)
  next
    case False
    with 2 show ?thesis by simp
  qed
qed

lemma alnum_words_none:
  "alnum_words s = [] \<longleftrightarrow> list_all (\<lambda>c. \<not> slug_char c) s"
  by (induction s) auto


lemma join_hyphen_Cons:
  "join_hyphen (w # ws) = (if ws = [] then w else w @ CHR ''-'' # join_hyphen ws)"
  by (cases ws) simp_all

lemma join_hyphen_Cons_Cons:
  "join_hyphen ((c # w) # ws) = c # join_hyphen (w # ws)"
  by (simp add: join_hyphen_Cons)

lemma sub_runs_words:
  "sub_runs (\<lambda>c. \<not> slug_char c) CHR ''-'' s =
     (if s \<noteq> [] \<and> \<not> slug_char (hd s) then ''-'' else [])
     @ join_hyphen (alnum_words s)
     @ (if alnum_words s \<noteq> [] \<and> \<not> slug_char (last s) then ''-'' else [])"
proof (induction s)
  case Nil
  then show ?case by simp
next
  case (Cons c s)
  show ?case
  proof (cases s)
    case Nil
    then show ?thesis by simp
  next
    case (Cons d cs)
    note IH = Cons.IH [unfolded Cons]
    consider (nn) "\<not> slug_char c" "\<not> slug_char d" | (ny) "\<not> slug_char c" "slug_char d"
      | (yn) "slug_char c" "\<not> slug_char d" | (yy) "slug_char c" "slug_char d"
      by blast
    then show ?thesis
    proof cases
      case nn
      then have "sub_runs (\<lambda>c. \<not> slug_char c) CHR ''-'' (c # d # cs)
                  = sub_runs (\<lambda>c. \<not> slug_char c) CHR ''-'' (d # cs)"
        by simp
      with nn IH show ?thesis unfolding Cons by (simp only: alnum_words_skip) simp
    next
      case ny
      then have "sub_runs (\<lambda>c. \<not> slug_char c) CHR ''-'' (c # d # cs)
                  = CHR ''-'' # sub_runs (\<lambda>c. \<not> slug_char c) CHR ''-'' (d # cs)"
        by simp
      with ny IH show ?thesis unfolding Cons by (simp only: alnum_words_skip) simp
    next
      case yn
      then have a: "sub_runs (\<lambda>c. \<not> slug_char c) CHR ''-'' (c # d # cs)
                  = c # sub_runs (\<lambda>c. \<not> slug_char c) CHR ''-'' (d # cs)"
        by simp
      have b: "alnum_words (c # d # cs) = [c] # alnum_words (d # cs)"
        using yn by (rule alnum_words_break)
      show ?thesis
      proof (cases "alnum_words (d # cs) = []")
        case True
        then have "list_all (\<lambda>c. \<not> slug_char c) (d # cs)" by (simp only: alnum_words_none)
        then have "\<not> slug_char (last (d # cs))"
          by (metis last_in_set list.distinct(1) list_all_iff)
        with True yn IH show ?thesis unfolding Cons a b by simp
      next
        case False
        with yn IH show ?thesis unfolding Cons a b by (simp add: join_hyphen_Cons)
      qed
    next
      case yy
      then have a: "sub_runs (\<lambda>c. \<not> slug_char c) CHR ''-'' (c # d # cs)
                  = c # sub_runs (\<lambda>c. \<not> slug_char c) CHR ''-'' (d # cs)"
        by simp
      from yy obtain w ws where w: "alnum_words (d # cs) = w # ws"
        by (cases "alnum_words (d # cs)") simp_all
      have b: "alnum_words (c # d # cs) = (c # w) # ws"
        using alnum_words_extend [OF yy, of cs] w by simp
      from yy IH show ?thesis unfolding Cons a b w
        by (simp add: join_hyphen_Cons_Cons del: alnum_words.simps sub_runs.simps)
    qed
  qed
qed


lemma slug_char_not_hyphen: "slug_char c \<Longrightarrow> c \<noteq> CHR ''-''"
  by (auto simp: slug_char_def is_lower_az_def is_digit_def)

lemma strip_where_all: "list_all P s \<Longrightarrow> strip_where P s = []"
proof -
  assume "list_all P s"
  then have d: "dropWhile P s = []" by (induction s) auto
  show ?thesis unfolding strip_where_def d by simp
qed

lemma strip_where_core:
  assumes "list_all P a" "list_all P b" "m \<noteq> []" "\<not> P (hd m)" "\<not> P (last m)"
  shows "strip_where P (a @ m @ b) = m"
proof -
  have 1: "dropWhile P (a @ m @ b) = m @ b"
    using assms by (cases m) (simp_all add: dropWhile_append list_all_iff)
  have 2: "dropWhile P (rev b @ rev m) = rev m"
    using assms by (cases m rule: rev_cases) (simp_all add: dropWhile_append list_all_iff)
  show ?thesis by (simp add: strip_where_def 1 2)
qed

lemma join_hyphen_nonempty:
  "ws \<noteq> [] \<Longrightarrow> list_all (\<lambda>w. w \<noteq> [] \<and> list_all slug_char w) ws \<Longrightarrow> join_hyphen ws \<noteq> []"
  by (cases ws) (auto simp: join_hyphen_Cons)

lemma join_hyphen_hd:
  "ws \<noteq> [] \<Longrightarrow> list_all (\<lambda>w. w \<noteq> [] \<and> list_all slug_char w) ws
     \<Longrightarrow> slug_char (hd (join_hyphen ws))"
  by (cases ws) (auto simp: join_hyphen_Cons list_all_iff)

lemma join_hyphen_last:
  "ws \<noteq> [] \<Longrightarrow> list_all (\<lambda>w. w \<noteq> [] \<and> list_all slug_char w) ws
     \<Longrightarrow> slug_char (last (join_hyphen ws))"
proof (induction ws)
  case Nil
  then show ?case by simp
next
  case (Cons w ws)
  show ?case
  proof (cases "ws = []")
    case True
    with Cons.prems show ?thesis by (simp add: list_all_iff)
  next
    case False
    with Cons.prems have "join_hyphen ws \<noteq> []" by (simp add: join_hyphen_nonempty)
    with False Cons show ?thesis by (simp add: join_hyphen_Cons)
  qed
qed

lemma join_hyphen_chars:
  "list_all (\<lambda>w. w \<noteq> [] \<and> list_all slug_char w) ws
     \<Longrightarrow> list_all (\<lambda>c. slug_char c \<or> c = CHR ''-'') (join_hyphen ws)"
  by (induction ws) (auto simp: join_hyphen_Cons list_all_iff)

lemma squeeze_hyphens_word:
  "list_all slug_char w \<Longrightarrow> squeeze_hyphens (w @ s) = w @ squeeze_hyphens s"
  by (induction w) (auto dest: slug_char_not_hyphen)

lemma squeeze_hyphens_join:
  "list_all (\<lambda>w. w \<noteq> [] \<and> list_all slug_char w) ws
     \<Longrightarrow> squeeze_hyphens (join_hyphen ws) = join_hyphen ws"
proof (induction ws)
  case Nil
  then show ?case by simp
next
  case (Cons w ws)
  show ?case
  proof (cases "ws = []")
    case True
    with Cons.prems squeeze_hyphens_word [of w "[]"] show ?thesis by simp
  next
    case False
    with Cons.prems have "join_hyphen ws \<noteq> []" "slug_char (hd (join_hyphen ws))"
      by (simp_all add: join_hyphen_nonempty join_hyphen_hd)
    then have "squeeze_hyphens (CHR ''-'' # join_hyphen ws)
                 = CHR ''-'' # squeeze_hyphens (join_hyphen ws)"
      by (auto dest: slug_char_not_hyphen)
    with False Cons show ?thesis
      by (simp add: join_hyphen_Cons squeeze_hyphens_word del: squeeze_hyphens.simps)
  qed
qed

lemma sublist_hyphens_Cons:
  "sublist ''--'' (c # s) \<longleftrightarrow> (c = CHR ''-'' \<and> s \<noteq> [] \<and> hd s = CHR ''-'') \<or> sublist ''--'' s"
  by (cases s) (auto simp: sublist_Cons_right)

lemma sublist_hyphens_word:
  "list_all slug_char w \<Longrightarrow> sublist ''--'' (w @ s) \<longleftrightarrow> sublist ''--'' s"
  by (induction w) (auto simp: sublist_hyphens_Cons dest: slug_char_not_hyphen)

lemma join_hyphen_no_double:
  "list_all (\<lambda>w. w \<noteq> [] \<and> list_all slug_char w) ws \<Longrightarrow> \<not> sublist ''--'' (join_hyphen ws)"
proof (induction ws)
  case Nil
  then show ?case by simp
next
  case (Cons w ws)
  show ?case
  proof (cases "ws = []")
    case True
    with Cons.prems sublist_hyphens_word [of w "[]"] show ?thesis by simp
  next
    case False
    with Cons.prems have "join_hyphen ws \<noteq> []" "slug_char (hd (join_hyphen ws))"
      by (simp_all add: join_hyphen_nonempty join_hyphen_hd)
    with False Cons show ?thesis
      by (auto simp: join_hyphen_Cons sublist_hyphens_word sublist_hyphens_Cons
          dest: slug_char_not_hyphen)
  qed
qed

lemma alnum_words_good:
  "list_all (\<lambda>w. w \<noteq> [] \<and> list_all slug_char w) (alnum_words s)"
  using alnum_words_shape by (auto simp: list_all_iff)

lemma strip_sub_runs:
  "strip_chars ''-'' (sub_runs (\<lambda>c. \<not> slug_char c) CHR ''-'' s) = join_hyphen (alnum_words s)"
proof (cases "alnum_words s = []")
  case True
  then show ?thesis
    by (simp add: sub_runs_words strip_chars_def strip_where_all)
next
  case False
  let ?m = "join_hyphen (alnum_words s)"
  have m: "?m \<noteq> []" "slug_char (hd ?m)" "slug_char (last ?m)"
    using False alnum_words_good
    by (simp_all add: join_hyphen_nonempty join_hyphen_hd join_hyphen_last)
  then have n: "\<not> (hd ?m \<in> set ''-'')" "\<not> (last ?m \<in> set ''-'')"
    by (auto dest: slug_char_not_hyphen)
  have "strip_where (\<lambda>c. c \<in> set ''-'')
          ((if s \<noteq> [] \<and> \<not> slug_char (hd s) then ''-'' else []) @ ?m
            @ (if alnum_words s \<noteq> [] \<and> \<not> slug_char (last s) then ''-'' else [])) = ?m"
    by (rule strip_where_core) (use m n in auto)
  then show ?thesis by (simp only: sub_runs_words strip_chars_def)
qed

lemma slugify_with_words:
  "slugify_with nf v =
     (if v = [] then [] else join_hyphen (alnum_words (lower (filter is_ascii (nf v)))))"
  by (simp add: slugify_with_def Let_def strip_sub_runs squeeze_hyphens_join alnum_words_good)

lemma join_hyphen_no_lead:
  "list_all (\<lambda>w. w \<noteq> [] \<and> list_all slug_char w) ws \<Longrightarrow> \<not> prefix ''-'' (join_hyphen ws)"
proof (cases "ws = []")
  case True
  then show ?thesis by simp
next
  case False
  assume "list_all (\<lambda>w. w \<noteq> [] \<and> list_all slug_char w) ws"
  with False have "join_hyphen ws \<noteq> []" "slug_char (hd (join_hyphen ws))"
    by (simp_all add: join_hyphen_nonempty join_hyphen_hd)
  then show ?thesis
    by (cases "join_hyphen ws") (auto dest: slug_char_not_hyphen)
qed

lemma join_hyphen_no_trail:
  "list_all (\<lambda>w. w \<noteq> [] \<and> list_all slug_char w) ws \<Longrightarrow> \<not> suffix ''-'' (join_hyphen ws)"
proof (cases "ws = []")
  case True
  then show ?thesis by simp
next
  case False
  assume "list_all (\<lambda>w. w \<noteq> [] \<and> list_all slug_char w) ws"
  with False have "join_hyphen ws \<noteq> []" "slug_char (last (join_hyphen ws))"
    by (simp_all add: join_hyphen_nonempty join_hyphen_last)
  then show ?thesis
    by (cases "join_hyphen ws" rule: rev_cases) (auto simp: suffix_def dest: slug_char_not_hyphen)
qed


text \<open>
  Claim C5 (as amended). \<open>slugify\<close> maps the spec's example title to "ornek-urun-ad":
  the dotless i has no decomposition and is dropped with the other non-ASCII bytes.
  For every normalisation and every input, the slug is the maximal runs of \<open>[a-z0-9]\<close> of
  the lowercased ASCII part of the normalised text, joined by single hyphens; it holds
  only such characters and hyphens, and has no leading, trailing or doubled hyphen.
\<close>

theorem slugify_words:
  "slugify ornek_urun_adi = ''ornek-urun-ad''
   \<and> (\<forall>nf v.
         slugify_with nf v =
           (if v = [] then [] else join_hyphen (alnum_words (lower (filter is_ascii (nf v)))))
         \<and> list_all (\<lambda>c. slug_char c \<or> c = CHR ''-'') (slugify_with nf v)
         \<and> \<not> prefix ''-'' (slugify_with nf v)
         \<and> \<not> suffix ''-'' (slugify_with nf v)
         \<and> \<not> sublist ''--'' (slugify_with nf v))"
proof (intro conjI allI)
  show "slugify ornek_urun_adi = ''ornek-urun-ad''" by code_simp
next
  fix nf v
  show "slugify_with nf v =
          (if v = [] then [] else join_hyphen (alnum_words (lower (filter is_ascii (nf v)))))"
    by (rule slugify_with_words)
  show "list_all (\<lambda>c. slug_char c \<or> c = CHR ''-'') (slugify_with nf v)"
    by (simp add: slugify_with_words join_hyphen_chars alnum_words_good)
  show "\<not> prefix ''-'' (slugify_with nf v)"
    using join_hyphen_no_lead [OF alnum_words_good] by (simp add: slugify_with_words)
  show "\<not> suffix ''-'' (slugify_with nf v)"
    using join_hyphen_no_trail [OF alnum_words_good] by (simp add: slugify_with_words)
  show "\<not> sublist ''--'' (slugify_with nf v)"
    using join_hyphen_no_double [OF alnum_words_good] by (simp add: slugify_with_words)
qed

theorem slugify_words_witness:
  "slugify_with nfkd_tr ''Hello,  World 42!'' = ''hello-world-42''
   \<and> \<not> prefix ''-'' (slugify_with nfkd_tr ''Hello,  World 42!'')"
proof -
  note r = slugify_words [THEN conjunct2, rule_format, of nfkd_tr "''Hello,  World 42!''"]
  have e: "join_hyphen (alnum_words (lower (filter is_ascii (nfkd_tr ''Hello,  World 42!''))))
             = ''hello-world-42''"
    by code_simp
  from r have "slugify_with nfkd_tr ''Hello,  World 42!'' = ''hello-world-42''"
    unfolding e by simp
  moreover from r have "\<not> prefix ''-'' (slugify_with nfkd_tr ''Hello,  World 42!'')"
    by (elim conjE)
  ultimately show ?thesis by (rule conjI)
qed

theorem slugify_example_counterexample:
  "slugify ornek_urun_adi \<noteq> ''ornek-urun-adi''"
proof -
  have "slugify ornek_urun_adi = ''ornek-urun-ad''" by code_simp
  then show ?thesis by simp
qed

subsection \<open>Matching\<close>

lemma normalize_sku_found:
  "normalize_sku L (Some (case found of None \<Rightarrow> [] | Some x \<Rightarrow> x)) = stripped_upper L found"
  by (cases found) (simp_all add: normalize_sku_def stripped_upper_def)

lemma normalize_sku_text: "normalize_sku L (Some x) = stripped_upper L (Some x)"
  by (simp add: normalize_sku_def stripped_upper_def)

lemma stripped_upper_empty: "stripped_upper L (Some []) = []"
  by (simp add: stripped_upper_def)

lemma extract_ids_stripped_upper:
  "extract_ids L web u =
     (case web u of
        None \<Rightarrow> ([], [])
      | Some sp \<Rightarrow> (stripped_upper L (sku_found sp), stripped_upper L (barcode_found sp)))"
  by (simp add: extract_ids_def normalize_sku_found split: option.split)

text \<open>The keys and values of the two indexes, in terms of the rows of the export.\<close>

lemma add_barcodes_lookup:
  "add_barcodes L s bs m k = Some v \<Longrightarrow>
     m k = Some v \<or> (k \<noteq> [] \<and> v = s \<and> (\<exists>b\<in>set bs. k = stripped_upper L (Some b)))"
proof (induction bs arbitrary: m)
  case Nil
  then show ?case by simp
next
  case (Cons b bs)
  let ?k = "stripped_upper L (Some b)"
  let ?m = "if ?k \<noteq> [] then m(?k \<mapsto> s) else m"
  from Cons.prems have "add_barcodes L s bs ?m k = Some v"
    by (simp add: Let_def normalize_sku_text)
  from Cons.IH [OF this] consider "?m k = Some v"
    | "k \<noteq> []" "v = s" "\<exists>b\<in>set bs. k = stripped_upper L (Some b)"
    by blast
  then show ?case
  proof cases
    case 1
    then show ?thesis by (auto split: if_splits)
  next
    case 2
    then show ?thesis by auto
  qed
qed

lemma add_barcodes_dom:
  "dom (add_barcodes L s bs m)
     = dom m \<union> {k. k \<noteq> [] \<and> (\<exists>b\<in>set bs. k = stripped_upper L (Some b))}"
proof (induction bs arbitrary: m)
  case Nil
  then show ?case by simp
next
  case (Cons b bs)
  show ?case
    by (cases "stripped_upper L (Some b) = []")
      (auto simp: Cons.IH Let_def normalize_sku_text split: if_splits)
qed

lemma index_row_sku_lookup:
  "sku_to_slug (index_row L idx r) k = Some v \<Longrightarrow>
     sku_to_slug idx k = Some v
     \<or> (k \<noteq> [] \<and> k = stripped_upper L (Some (col_sku r)) \<and> v = str_strip L (col_slug r))"
  by (auto simp: index_row_def Let_def normalize_sku_text split: if_splits)

lemma index_row_sku_dom:
  "dom (sku_to_slug (index_row L idx r))
     = dom (sku_to_slug idx) \<union> {k. k \<noteq> [] \<and> k = stripped_upper L (Some (col_sku r))}"
  by (auto simp: index_row_def Let_def normalize_sku_text)

lemma index_row_barcode_lookup:
  "barcode_to_slug (index_row L idx r) k = Some v \<Longrightarrow>
     barcode_to_slug idx k = Some v
     \<or> (k \<noteq> [] \<and> v = str_strip L (col_slug r)
         \<and> (\<exists>b\<in>set (py_split CHR '';'' (str_strip L (col_barkod_listesi r))).
               k = stripped_upper L (Some b)))"
  by (auto simp: index_row_def Let_def split: if_splits dest: add_barcodes_lookup)

lemma index_row_barcode_dom:
  "dom (barcode_to_slug (index_row L idx r))
     = dom (barcode_to_slug idx)
       \<union> {k. k \<noteq> [] \<and> (\<exists>b\<in>set (py_split CHR '';'' (str_strip L (col_barkod_listesi r))).
                          k = stripped_upper L (Some b))}"
proof (cases "str_strip L (col_barkod_listesi r) = []")
  case True
  then show ?thesis
    by (auto simp: index_row_def Let_def stripped_upper_empty)
next
  case False
  then show ?thesis
    by (simp add: index_row_def Let_def add_barcodes_dom)
qed

lemma foldl_index_row_lookup:
  "sku_to_slug (foldl (index_row L) idx rows) k = Some v \<Longrightarrow>
     sku_to_slug idx k = Some v
     \<or> (\<exists>r\<in>set rows. k = stripped_upper L (Some (col_sku r)) \<and> v = str_strip L (col_slug r))"
  "barcode_to_slug (foldl (index_row L) idx rows) k = Some v \<Longrightarrow>
     barcode_to_slug idx k = Some v
     \<or> (\<exists>r\<in>set rows. v = str_strip L (col_slug r)
           \<and> (\<exists>b\<in>set (py_split CHR '';'' (str_strip L (col_barkod_listesi r))).
                 k = stripped_upper L (Some b)))"
proof (induction rows arbitrary: idx)
  case Nil
  { case 1 then show ?case by simp }
  { case 2 then show ?case by simp }
next
  case (Cons r rows)
  { case 1
    from Cons.IH(1) [of "index_row L idx r"] 1
    show ?case by (auto dest: index_row_sku_lookup) }
  { case 2
    from Cons.IH(2) [of "index_row L idx r"] 2
    show ?case by (auto dest: index_row_barcode_lookup) }
qed

lemma foldl_index_row_dom:
  "dom (sku_to_slug (foldl (index_row L) idx rows))
     = dom (sku_to_slug idx)
       \<union> {k. k \<noteq> [] \<and> (\<exists>r\<in>set rows. k = stripped_upper L (Some (col_sku r)))}"
  "dom (barcode_to_slug (foldl (index_row L) idx rows))
     = dom (barcode_to_slug idx)
       \<union> {k. k \<noteq> [] \<and> (\<exists>r\<in>set rows.
                \<exists>b\<in>set (py_split CHR '';'' (str_strip L (col_barkod_listesi r))).
                   k = stripped_upper L (Some b))}"
proof (induction rows arbitrary: idx)
  case Nil
  { case 1 show ?case by simp }
  { case 2 show ?case by simp }
next
  case (Cons r rows)
  { case 1 show ?case by (auto simp: Cons.IH(1) index_row_sku_dom) }
  { case 2 show ?case by (auto simp: Cons.IH(2) index_row_barcode_dom) }
qed

lemma build_index_dom:
  "dom (sku_to_slug (build_index L ikas_csv))
     = {k. k \<noteq> [] \<and> (\<exists>rows. ikas_csv = Some rows
              \<and> (\<exists>r\<in>set rows. k = stripped_upper L (Some (col_sku r))))}"
  "dom (barcode_to_slug (build_index L ikas_csv))
     = {k. k \<noteq> [] \<and> (\<exists>rows. ikas_csv = Some rows
              \<and> (\<exists>r\<in>set rows.
                    \<exists>b\<in>set (py_split CHR '';'' (str_strip L (col_barkod_listesi r))).
                       k = stripped_upper L (Some b)))}"
  by (cases ikas_csv; simp add: build_index_def empty_index_def foldl_index_row_dom)+

lemma build_index_lookup:
  "sku_to_slug (build_index L ikas_csv) k = Some v \<Longrightarrow>
     \<exists>rows. ikas_csv = Some rows
       \<and> (\<exists>r\<in>set rows. k = stripped_upper L (Some (col_sku r)) \<and> v = str_strip L (col_slug r))"
  "barcode_to_slug (build_index L ikas_csv) k = Some v \<Longrightarrow>
     \<exists>rows. ikas_csv = Some rows
       \<and> (\<exists>r\<in>set rows. v = str_strip L (col_slug r)
             \<and> (\<exists>b\<in>set (py_split CHR '';'' (str_strip L (col_barkod_listesi r))).
                   k = stripped_upper L (Some b)))"
proof -
  assume "sku_to_slug (build_index L ikas_csv) k = Some v"
  then show "\<exists>rows. ikas_csv = Some rows
       \<and> (\<exists>r\<in>set rows. k = stripped_upper L (Some (col_sku r)) \<and> v = str_strip L (col_slug r))"
    by (cases ikas_csv)
      (auto simp: build_index_def empty_index_def dest: foldl_index_row_lookup(1))
next
  assume "barcode_to_slug (build_index L ikas_csv) k = Some v"
  then show "\<exists>rows. ikas_csv = Some rows
       \<and> (\<exists>r\<in>set rows. v = str_strip L (col_slug r)
             \<and> (\<exists>b\<in>set (py_split CHR '';'' (str_strip L (col_barkod_listesi r))).
                   k = stripped_upper L (Some b)))"
    by (cases ikas_csv)
      (auto simp: build_index_def empty_index_def dest: foldl_index_row_lookup(2))
qed

text \<open>
  Claim C1. For a page of type product and the indexes built from any destination export
  (or from none), let \<open>sku\<close> and \<open>barcode\<close> be the normalised identifiers of the page: what
  \<open>find_sku\<close> and \<open>find_barcode\<close> find on the page as the matcher fetches it,
  whitespace-stripped and uppercased, and empty when the page cannot be fetched. These are
  the identifiers the matcher uses. If \<open>sku\<close> is a key of the SKU index the result has
  confidence 1.0 and reason "sku", whatever the barcode index holds; otherwise, if
  \<open>barcode\<close> is a key of the barcode index, confidence 0.98 and reason "barcode";
  otherwise the target path is empty, the confidence 0.0 and the reason "unmatched".
  The keys of the SKU index are the non-empty normalised SKUs of the rows of the export,
  those of the barcode index the non-empty normalised entries of their barcode lists,
  and the value of a key is the stripped slug of a row with that key.
\<close>

theorem match_page_priority:
  assumes "ptype page = ''product''"
    and "idx = build_index L ikas_csv"
    and "sku = (case web (url page) of
                  None \<Rightarrow> []
                | Some sp \<Rightarrow> stripped_upper L (sku_found sp))"
    and "barcode = (case web (url page) of
                      None \<Rightarrow> []
                    | Some sp \<Rightarrow> stripped_upper L (barcode_found sp))"
    and "r = match_page L idx web page"
  shows "m_sku r = sku \<and> m_barcode r = barcode
     \<and> (sku \<in> dom (sku_to_slug idx) \<longrightarrow>
           confidence r = 1 \<and> reason r = ''sku''
           \<and> target_path r = ''/urun/'' @ the (sku_to_slug idx sku))
     \<and> (sku \<notin> dom (sku_to_slug idx) \<and> barcode \<in> dom (barcode_to_slug idx) \<longrightarrow>
           confidence r = 98 / 100 \<and> reason r = ''barcode''
           \<and> target_path r = ''/urun/'' @ the (barcode_to_slug idx barcode))
     \<and> (sku \<notin> dom (sku_to_slug idx) \<and> barcode \<notin> dom (barcode_to_slug idx) \<longrightarrow>
           target_path r = [] \<and> confidence r = 0 \<and> reason r = ''unmatched'')
     \<and> dom (sku_to_slug idx)
         = {k. k \<noteq> [] \<and> (\<exists>rows. ikas_csv = Some rows
                \<and> (\<exists>row\<in>set rows. k = stripped_upper L (Some (col_sku row))))}
     \<and> dom (barcode_to_slug idx)
         = {k. k \<noteq> [] \<and> (\<exists>rows. ikas_csv = Some rows
                \<and> (\<exists>row\<in>set rows.
                      \<exists>b\<in>set (py_split CHR '';'' (str_strip L (col_barkod_listesi row))).
                         k = stripped_upper L (Some b)))}
     \<and> (\<forall>k v. sku_to_slug idx k = Some v \<longrightarrow>
           (\<exists>rows. ikas_csv = Some rows
              \<and> (\<exists>row\<in>set rows. k = stripped_upper L (Some (col_sku row))
                    \<and> v = str_strip L (col_slug row))))
     \<and> (\<forall>k v. barcode_to_slug idx k = Some v \<longrightarrow>
           (\<exists>rows. ikas_csv = Some rows
              \<and> (\<exists>row\<in>set rows. v = str_strip L (col_slug row)
                    \<and> (\<exists>b\<in>set (py_split CHR '';'' (str_strip L (col_barkod_listesi row))).
                          k = stripped_upper L (Some b)))))"
proof -
  have ids: "extract_ids L web (url page) = (sku, barcode)"
    unfolding assms(3,4) extract_ids_stripped_upper by (simp split: option.split)
  have d1: "dom (sku_to_slug idx)
         = {k. k \<noteq> [] \<and> (\<exists>rows. ikas_csv = Some rows
                \<and> (\<exists>row\<in>set rows. k = stripped_upper L (Some (col_sku row))))}"
    unfolding assms(2) by (rule build_index_dom(1))
  have d2: "dom (barcode_to_slug idx)
         = {k. k \<noteq> [] \<and> (\<exists>rows. ikas_csv = Some rows
                \<and> (\<exists>row\<in>set rows.
                      \<exists>b\<in>set (py_split CHR '';'' (str_strip L (col_barkod_listesi row))).
                         k = stripped_upper L (Some b)))}"
    unfolding assms(2) by (rule build_index_dom(2))
  have n1: "[] \<notin> dom (sku_to_slug idx)" unfolding d1 by simp
  have n2: "[] \<notin> dom (barcode_to_slug idx)" unfolding d2 by simp
  have s: "sku \<in> dom (sku_to_slug idx) \<longleftrightarrow> sku \<noteq> [] \<and> sku_to_slug idx sku \<noteq> None"
    using n1 by (auto simp: domIff)
  have b: "barcode \<in> dom (barcode_to_slug idx)
             \<longleftrightarrow> barcode \<noteq> [] \<and> barcode_to_slug idx barcode \<noteq> None"
    using n2 by (auto simp: domIff)
  have m: "r = (if sku \<in> dom (sku_to_slug idx)
              then \<lparr>target_path = ''/urun/'' @ the (sku_to_slug idx sku), m_sku = sku,
                    m_barcode = barcode, confidence = 1, reason = ''sku''\<rparr>
              else if barcode \<in> dom (barcode_to_slug idx)
              then \<lparr>target_path = ''/urun/'' @ the (barcode_to_slug idx barcode), m_sku = sku,
                    m_barcode = barcode, confidence = 98 / 100, reason = ''barcode''\<rparr>
              else \<lparr>target_path = [], m_sku = sku, m_barcode = barcode, confidence = 0,
                    reason = ''unmatched''\<rparr>)"
    unfolding s b assms(5) match_page_def Let_def ids
    using assms(1) by simp
  have v1: "\<exists>rows. ikas_csv = Some rows
              \<and> (\<exists>row\<in>set rows. k = stripped_upper L (Some (col_sku row))
                    \<and> v = str_strip L (col_slug row))"
    if "sku_to_slug idx k = Some v" for k v
    using that unfolding assms(2) by (rule build_index_lookup(1))
  have v2: "\<exists>rows. ikas_csv = Some rows
              \<and> (\<exists>row\<in>set rows. v = str_strip L (col_slug row)
                    \<and> (\<exists>b\<in>set (py_split CHR '';'' (str_strip L (col_barkod_listesi row))).
                          k = stripped_upper L (Some b)))"
    if "barcode_to_slug idx k = Some v" for k v
    using that unfolding assms(2) by (rule build_index_lookup(2))
  have c1: "m_sku r = sku" by (simp add: m)
  have c2: "m_barcode r = barcode" by (simp add: m)
  have c3: "sku \<in> dom (sku_to_slug idx) \<longrightarrow>
           confidence r = 1 \<and> reason r = ''sku''
           \<and> target_path r = ''/urun/'' @ the (sku_to_slug idx sku)"
    by (simp add: m)
  have c4: "sku \<notin> dom (sku_to_slug idx) \<and> barcode \<in> dom (barcode_to_slug idx) \<longrightarrow>
           confidence r = 98 / 100 \<and> reason r = ''barcode''
           \<and> target_path r = ''/urun/'' @ the (barcode_to_slug idx barcode)"
    by (simp add: m)
  have c5: "sku \<notin> dom (sku_to_slug idx) \<and> barcode \<notin> dom (barcode_to_slug idx) \<longrightarrow>
           target_path r = [] \<and> confidence r = 0 \<and> reason r = ''unmatched''"
    by (simp add: m)
  have w1: "\<forall>k v. sku_to_slug idx k = Some v \<longrightarrow>
           (\<exists>rows. ikas_csv = Some rows
              \<and> (\<exists>row\<in>set rows. k = stripped_upper L (Some (col_sku row))
                    \<and> v = str_strip L (col_slug row)))"
    by (intro allI impI) (rule v1)
  have w2: "\<forall>k v. barcode_to_slug idx k = Some v \<longrightarrow>
           (\<exists>rows. ikas_csv = Some rows
              \<and> (\<exists>row\<in>set rows. v = str_strip L (col_slug row)
                    \<and> (\<exists>b\<in>set (py_split CHR '';'' (str_strip L (col_barkod_listesi row))).
                          k = stripped_upper L (Some b))))"
    by (intro allI impI) (rule v2)
  show ?thesis using c1 c2 c3 c4 c5 d1 d2 w1 w2 by (intro conjI)
qed

theorem match_page_priority_witness:
  "ptype \<lparr>url = ''https://a.com/urun/test-urun'', title = ''Test Urun'', slug = ''test-urun'',
          ptype = ''product''\<rparr> = ''product''
   \<and> sku_found (the (demo_web ''https://a.com/urun/test-urun'')) = Some ''abc-1''
   \<and> stripped_upper demo_lib (Some ''abc-1'') = ''ABC-1''
   \<and> ''ABC-1'' \<in> dom (sku_to_slug (build_index demo_lib (Some demo_export)))
   \<and> ''8690000000035'' \<in> dom (barcode_to_slug (build_index demo_lib (Some demo_export)))
   \<and> m_sku (match_page demo_lib (build_index demo_lib (Some demo_export)) demo_web
        \<lparr>url = ''https://a.com/urun/test-urun'', title = ''Test Urun'', slug = ''test-urun'',
          ptype = ''product''\<rparr>) = ''ABC-1''
   \<and> reason (match_page demo_lib (build_index demo_lib (Some demo_export)) demo_web
        \<lparr>url = ''https://a.com/urun/test-urun'', title = ''Test Urun'', slug = ''test-urun'',
          ptype = ''product''\<rparr>) = ''sku''
   \<and> confidence (match_page demo_lib (build_index demo_lib (Some demo_export)) demo_web
        \<lparr>url = ''https://a.com/urun/test-urun'', title = ''Test Urun'', slug = ''test-urun'',
          ptype = ''product''\<rparr>) = 1"
proof -
  let ?page = "\<lparr>url = ''https://a.com/urun/test-urun'', title = ''Test Urun'',
                 slug = ''test-urun'', ptype = ''product''\<rparr>"
  let ?idx = "build_index demo_lib (Some demo_export)"
  have p: "ptype ?page = ''product''" by simp
  have f: "sku_found (the (demo_web ''https://a.com/urun/test-urun'')) = Some ''abc-1''"
    by code_simp
  have n: "stripped_upper demo_lib (Some ''abc-1'') = ''ABC-1''" by code_simp
  have e1: "''ABC-1'' = (case demo_web (url ?page) of
                  None \<Rightarrow> []
                | Some sp \<Rightarrow> stripped_upper demo_lib (sku_found sp))"
    by code_simp
  have e2: "''8690000000035'' = (case demo_web (url ?page) of
                  None \<Rightarrow> []
                | Some sp \<Rightarrow> stripped_upper demo_lib (barcode_found sp))"
    by code_simp
  have "sku_to_slug ?idx ''ABC-1'' = Some ''test-urun''" by code_simp
  then have k1: "''ABC-1'' \<in> dom (sku_to_slug ?idx)" by (rule domI)
  have "barcode_to_slug ?idx ''8690000000035'' = Some ''diger-urun''" by code_simp
  then have k2: "''8690000000035'' \<in> dom (barcode_to_slug ?idx)" by (rule domI)
  note r = match_page_priority [where page = ?page and L = demo_lib and web = demo_web
      and ikas_csv = "Some demo_export" and idx = ?idx and sku = "''ABC-1''"
      and barcode = "''8690000000035''", OF p refl e1 e2 refl]
  note r1 = r [THEN conjunct1]
  note r3 = r [THEN conjunct2, THEN conjunct2, THEN conjunct1, rule_format, OF k1]
  show ?thesis
    using p f n k1 k2 r1 r3 [THEN conjunct2, THEN conjunct1] r3 [THEN conjunct1]
    by (intro conjI)
qed

lemma index_row_retitle:
  assumes "sku_to_slug i1 = sku_to_slug i2" "barcode_to_slug i1 = barcode_to_slug i2"
  shows "sku_to_slug (index_row L i1 (r\<lparr>col_isim := t\<rparr>)) = sku_to_slug (index_row L i2 r)
     \<and> barcode_to_slug (index_row L i1 (r\<lparr>col_isim := t\<rparr>)) = barcode_to_slug (index_row L i2 r)"
  using assms by (simp add: index_row_def Let_def)

lemma foldl_index_row_retitle:
  "sku_to_slug i1 = sku_to_slug i2 \<Longrightarrow> barcode_to_slug i1 = barcode_to_slug i2 \<Longrightarrow>
     sku_to_slug (foldl (index_row L) i1 (map (\<lambda>r. r\<lparr>col_isim := f r\<rparr>) rows))
       = sku_to_slug (foldl (index_row L) i2 rows)
     \<and> barcode_to_slug (foldl (index_row L) i1 (map (\<lambda>r. r\<lparr>col_isim := f r\<rparr>) rows))
       = barcode_to_slug (foldl (index_row L) i2 rows)"
proof (induction rows arbitrary: i1 i2)
  case Nil
  then show ?case by simp
next
  case (Cons r rows)
  from index_row_retitle [OF Cons.prems, where r = r and t = "f r"]
  have "sku_to_slug (index_row L i1 (r\<lparr>col_isim := f r\<rparr>)) = sku_to_slug (index_row L i2 r)"
    "barcode_to_slug (index_row L i1 (r\<lparr>col_isim := f r\<rparr>)) = barcode_to_slug (index_row L i2 r)"
    by simp_all
  from Cons.IH [OF this] show ?case by simp
qed

lemma build_index_retitle:
  "sku_to_slug (build_index L (Some (map (\<lambda>r. r\<lparr>col_isim := f r\<rparr>) rows)))
     = sku_to_slug (build_index L (Some rows))
   \<and> barcode_to_slug (build_index L (Some (map (\<lambda>r. r\<lparr>col_isim := f r\<rparr>) rows)))
     = barcode_to_slug (build_index L (Some rows))"
  using foldl_index_row_retitle [OF refl refl, where ?i1.0 = empty_index and L = L and f = f and rows = rows]
  by (simp add: build_index_def)

text \<open>
  Claim C9. Two destination exports whose SKU and barcode indexes agree give every page
  the same match result and the same redirect and diagnostic rows, whatever their title
  indexes hold: the matcher never reads the title index.
\<close>

theorem match_ignores_titles:
  assumes "sku_to_slug (build_index L csv1) = sku_to_slug (build_index L csv2)"
    and "barcode_to_slug (build_index L csv1) = barcode_to_slug (build_index L csv2)"
  shows "match_page L (build_index L csv1) web page = match_page L (build_index L csv2) web page
     \<and> redirects_rows L (build_index L csv1) web pgs = redirects_rows L (build_index L csv2) web pgs
     \<and> diagnostics L (build_index L csv1) web pgs = diagnostics L (build_index L csv2) web pgs"
proof -
  have "match_page L (build_index L csv1) web p = match_page L (build_index L csv2) web p" for p
    unfolding match_page_def assms by (rule refl)
  then show ?thesis by (simp add: redirects_rows_def diagnostics_def)
qed


theorem match_ignores_titles_witness:
  "sku_to_slug (build_index demo_lib (Some demo_export_retitled))
     = sku_to_slug (build_index demo_lib (Some demo_export))
   \<and> barcode_to_slug (build_index demo_lib (Some demo_export_retitled))
     = barcode_to_slug (build_index demo_lib (Some demo_export))
   \<and> title_to_slug (build_index demo_lib (Some demo_export_retitled))
     \<noteq> title_to_slug (build_index demo_lib (Some demo_export))
   \<and> match_page demo_lib (build_index demo_lib (Some demo_export_retitled)) demo_web
        \<lparr>url = ''https://a.com/urun/test-urun'', title = ''Test Urun'', slug = ''test-urun'',
          ptype = ''product''\<rparr>
     = match_page demo_lib (build_index demo_lib (Some demo_export)) demo_web
        \<lparr>url = ''https://a.com/urun/test-urun'', title = ''Test Urun'', slug = ''test-urun'',
          ptype = ''product''\<rparr>"
proof -
  note k = build_index_retitle [of demo_lib "\<lambda>r. ''Baska Isim''" demo_export,
      folded demo_export_retitled_def]
  have t1: "title_to_slug (build_index demo_lib (Some demo_export_retitled))
              = [(''baska isim'', ''test-urun''), (''baska isim'', ''diger-urun'')]"
    by code_simp
  have t2: "title_to_slug (build_index demo_lib (Some demo_export))
              = [(''test urun'', ''test-urun''), (''diger urun'', ''diger-urun'')]"
    by code_simp
  have t: "title_to_slug (build_index demo_lib (Some demo_export_retitled))
             \<noteq> title_to_slug (build_index demo_lib (Some demo_export))"
    unfolding t1 t2 by simp
  from match_ignores_titles [OF k [THEN conjunct1] k [THEN conjunct2]]
  have "match_page demo_lib (build_index demo_lib (Some demo_export_retitled)) demo_web
        \<lparr>url = ''https://a.com/urun/test-urun'', title = ''Test Urun'', slug = ''test-urun'',
          ptype = ''product''\<rparr>
     = match_page demo_lib (build_index demo_lib (Some demo_export)) demo_web
        \<lparr>url = ''https://a.com/urun/test-urun'', title = ''Test Urun'', slug = ''test-urun'',
          ptype = ''product''\<rparr>"
    by (rule conjunct1)
  with k t show ?thesis by blast
qed

subsection \<open>The crawler\<close>

lemma crawl_loop_go:
  "to_visit st \<noteq> [] \<Longrightarrow> int (pages st) < max_pages \<Longrightarrow>
     crawl_loop L web start_url start_html max_pages st
       = crawl_loop L web start_url start_html max_pages
           (crawl_step L web start_url start_html st)"
  by (subst crawl_loop.simps) simp

lemma crawl_loop_stop:
  "to_visit st = [] \<or> \<not> int (pages st) < max_pages \<Longrightarrow>
     crawl_loop L web start_url start_html max_pages st = st"
  by (subst crawl_loop.simps) auto

lemma crawl_loop_invariant:
  assumes "I st"
    and "\<And>s. I s \<Longrightarrow> to_visit s \<noteq> [] \<Longrightarrow> int (pages s) < max_pages
            \<Longrightarrow> I (crawl_step L web start_url start_html s)"
  shows "I (crawl_loop L web start_url start_html max_pages st)"
  using assms
proof (induction L web start_url start_html max_pages st rule: crawl_loop.induct)
  case (1 L web start_url start_html max_pages st)
  show ?case
  proof (cases "to_visit st \<noteq> [] \<and> int (pages st) < max_pages")
    case True
    then have "I (crawl_step L web start_url start_html st)"
      using "1.prems" by simp
    from "1.IH" [OF True this "1.prems"(2)] True show ?thesis
      by (simp add: crawl_loop_go)
  next
    case False
    with "1.prems"(1) show ?thesis by (simp add: crawl_loop_stop)
  qed
qed

lemma crawl_loop_exit:
  "\<not> (to_visit (crawl_loop L web start_url start_html max_pages st) \<noteq> []
       \<and> int (pages (crawl_loop L web start_url start_html max_pages st)) < max_pages)"
proof (induction L web start_url start_html max_pages st rule: crawl_loop.induct)
  case (1 L web start_url start_html max_pages st)
  show ?case
  proof (cases "to_visit st \<noteq> [] \<and> int (pages st) < max_pages")
    case True
    with "1.IH" show ?thesis by (simp add: crawl_loop_go)
  next
    case False
    then show ?thesis by (simp add: crawl_loop_stop)
  qed
qed

lemma crawl_loop_iterates:
  "\<exists>k. crawl_loop L web start_url start_html max_pages st
          = (crawl_step L web start_url start_html ^^ k) st"
proof (induction L web start_url start_html max_pages st rule: crawl_loop.induct)
  case (1 L web start_url start_html max_pages st)
  show ?case
  proof (cases "to_visit st \<noteq> [] \<and> int (pages st) < max_pages")
    case True
    from "1.IH" [OF True] obtain k where
      "crawl_loop L web start_url start_html max_pages (crawl_step L web start_url start_html st)
         = (crawl_step L web start_url start_html ^^ k) (crawl_step L web start_url start_html st)"
      by blast
    with True have "crawl_loop L web start_url start_html max_pages st
         = (crawl_step L web start_url start_html ^^ Suc k) st"
      by (simp add: crawl_loop_go funpow_swap1)
    then show ?thesis by blast
  next
    case False
    then have "crawl_loop L web start_url start_html max_pages st
         = (crawl_step L web start_url start_html ^^ 0) st"
      by (simp add: crawl_loop_stop)
    then show ?thesis by blast
  qed
qed

text \<open>One iteration, by cases.\<close>

lemma crawl_step_skip:
  "to_visit st = current # rest \<Longrightarrow> current \<in> visited st \<or> should_exclude_url current
     \<Longrightarrow> crawl_step L web start_url start_html st = st\<lparr>to_visit := rest\<rparr>"
  by (simp add: crawl_step_def)

lemma page_record_sel:
  "url (page_record L u sp) = u"
  "ptype (page_record L u sp) = determine_page_type L u sp"
  by (simp_all add: page_record_def Let_def)

lemma crawl_step_visit:
  assumes "to_visit st = current # rest" "current \<notin> visited st" "\<not> should_exclude_url current"
  shows "visited (crawl_step L web start_url start_html st) = insert current (visited st)"
    and "pages (crawl_step L web start_url start_html st) = pages st + 1"
    and "fetched (crawl_step L web start_url start_html st)
           = (if current = start_url then fetched st else fetched st @ [current])"
    and "all_pages (crawl_step L web start_url start_html st) = all_pages st
         \<or> (\<exists>sp. (if current = start_url then Some start_html else web current) = Some sp
              \<and> all_pages (crawl_step L web start_url start_html st)
                = all_pages st @ [page_record L current sp])"
    and "all_pages (crawl_step L web start_url start_html st)
           = (case (if current = start_url then Some start_html else web current) of
                None \<Rightarrow> all_pages st
              | Some sp \<Rightarrow> all_pages st @ [page_record L current sp])"
  using assms by (auto simp: crawl_step_def Let_def split: option.split)

lemma crawl_step_budget:
  assumes inv: "finite (visited st)" "card (visited st) = pages st"
      "length (all_pages st) \<le> pages st" "int (pages st) \<le> max 0 max_pages"
      "url ` set (all_pages st) \<subseteq> visited st"
    and guard: "to_visit st \<noteq> []" "int (pages st) < max_pages"
  shows "finite (visited (crawl_step L web start_url start_html st))
     \<and> card (visited (crawl_step L web start_url start_html st))
         = pages (crawl_step L web start_url start_html st)
     \<and> length (all_pages (crawl_step L web start_url start_html st))
         \<le> pages (crawl_step L web start_url start_html st)
     \<and> int (pages (crawl_step L web start_url start_html st)) \<le> max 0 max_pages
     \<and> url ` set (all_pages (crawl_step L web start_url start_html st))
         \<subseteq> visited (crawl_step L web start_url start_html st)"
proof -
  from guard(1) obtain current rest where tv: "to_visit st = current # rest"
    by (cases "to_visit st") auto
  show ?thesis
  proof (cases "current \<in> visited st \<or> should_exclude_url current")
    case True
    from crawl_step_skip [OF tv True] inv show ?thesis by simp
  next
    case False
    then have f: "current \<notin> visited st" "\<not> should_exclude_url current" by simp_all
    note v = crawl_step_visit [OF tv f, of L web start_url start_html]
    from inv(5) have m: "\<And>p. p \<in> set (all_pages st) \<Longrightarrow> url p \<in> visited st"
      by auto
    from v(4) inv(3) m have
      "length (all_pages (crawl_step L web start_url start_html st)) \<le> pages st + 1
       \<and> url ` set (all_pages (crawl_step L web start_url start_html st))
           \<subseteq> insert current (visited st)"
      by (auto simp: page_record_sel)
    with v(1,2) inv(1,2,4) f(1) guard(2) show ?thesis by simp
  qed
qed

lemma crawl_step_keeps_pages:
  "prefix (all_pages st) (all_pages (crawl_step L web start_url start_html st))"
  by (auto simp: crawl_step_def Let_def split: list.split option.split)

lemma crawl_loop_keeps_pages:
  "prefix (all_pages st) (all_pages (crawl_loop L web start_url start_html max_pages st))"
proof (rule crawl_loop_invariant
    [where I = "\<lambda>s :: crawl_state. prefix (all_pages st) (all_pages s)"])
  show "prefix (all_pages st) (all_pages st)" by simp
next
  fix s :: crawl_state
  assume "prefix (all_pages st) (all_pages s)"
  with crawl_step_keeps_pages [of s L web start_url start_html]
  show "prefix (all_pages st) (all_pages (crawl_step L web start_url start_html s))"
    by (rule prefix_order.trans [rotated])
qed

lemma crawl_budget:
  "finite (visited (crawl L web start_url max_pages))
   \<and> card (visited (crawl L web start_url max_pages)) = pages (crawl L web start_url max_pages)
   \<and> length (all_pages (crawl L web start_url max_pages))
       \<le> pages (crawl L web start_url max_pages)
   \<and> int (pages (crawl L web start_url max_pages)) \<le> max 0 max_pages
   \<and> url ` set (all_pages (crawl L web start_url max_pages))
       \<subseteq> visited (crawl L web start_url max_pages)"
proof (cases "web start_url")
  case None
  then show ?thesis by (simp add: crawl_def)
next
  case (Some start_html)
  let ?I = "\<lambda>s :: crawl_state. finite (visited s) \<and> card (visited s) = pages s
      \<and> length (all_pages s) \<le> pages s \<and> int (pages s) \<le> max 0 max_pages
      \<and> url ` set (all_pages s) \<subseteq> visited s"
  have "?I (crawl_loop L web start_url start_html max_pages
          \<lparr>to_visit = [start_url], visited = {}, all_pages = [], pages = 0,
           fetched = [start_url], enqueued = [start_url]\<rparr>)"
  proof (rule crawl_loop_invariant [where I = ?I])
    show "?I \<lparr>to_visit = [start_url], visited = {}, all_pages = [], pages = 0,
           fetched = [start_url], enqueued = [start_url]\<rparr>"
      by simp
  next
    fix s :: crawl_state
    assume "?I s" "to_visit s \<noteq> []" "int (pages s) < max_pages"
    then show "?I (crawl_step L web start_url start_html s)"
      using crawl_step_budget [of s max_pages L web start_url start_html] by blast
  qed
  with Some show ?thesis by (simp add: crawl_def)
qed

lemma crawl_exit:
  "to_visit (crawl L web start_url max_pages) = []
   \<or> max_pages \<le> int (pages (crawl L web start_url max_pages))"
proof (cases "web start_url")
  case None
  then show ?thesis by (simp add: crawl_def)
next
  case (Some start_html)
  from crawl_loop_exit [of L web start_url start_html max_pages
      "\<lparr>to_visit = [start_url], visited = {}, all_pages = [], pages = 0,
        fetched = [start_url], enqueued = [start_url]\<rparr>"] Some
  show ?thesis
    by (auto simp: crawl_def not_less)
qed

text \<open>What the list holds: the record of every visited URL whose fetch gave a document.\<close>

lemma crawl_step_records:
  assumes v: "\<forall>u\<in>visited st. \<forall>sp. (if u = start_url then Some start_html else web u) = Some sp
                \<longrightarrow> page_record L u sp \<in> set (all_pages st)"
    and r: "\<forall>p\<in>set (all_pages st). url p \<in> visited st
              \<and> (\<exists>sp. (if url p = start_url then Some start_html else web (url p)) = Some sp
                    \<and> p = page_record L (url p) sp)"
    and d: "distinct (map url (all_pages st))"
  shows "(\<forall>u\<in>visited (crawl_step L web start_url start_html st).
            \<forall>sp. (if u = start_url then Some start_html else web u) = Some sp
              \<longrightarrow> page_record L u sp \<in> set (all_pages (crawl_step L web start_url start_html st)))
     \<and> (\<forall>p\<in>set (all_pages (crawl_step L web start_url start_html st)).
            url p \<in> visited (crawl_step L web start_url start_html st)
            \<and> (\<exists>sp. (if url p = start_url then Some start_html else web (url p)) = Some sp
                  \<and> p = page_record L (url p) sp))
     \<and> distinct (map url (all_pages (crawl_step L web start_url start_html st)))"
proof (cases "to_visit st")
  case Nil
  then have "crawl_step L web start_url start_html st = st" by (simp add: crawl_step_def)
  with v r d show ?thesis by simp
next
  case (Cons current rest)
  show ?thesis
  proof (cases "current \<in> visited st \<or> should_exclude_url current")
    case True
    from crawl_step_skip [OF Cons True] v r d show ?thesis by simp
  next
    case False
    then have f: "current \<notin> visited st" "\<not> should_exclude_url current" by simp_all
    note s = crawl_step_visit [OF Cons f, of L web start_url start_html]
    from r f(1) have fresh: "current \<notin> url ` set (all_pages st)" by auto
    show ?thesis
    proof (cases "if current = start_url then Some start_html else web current")
      case None
      with s(5) have a: "all_pages (crawl_step L web start_url start_html st) = all_pages st"
        by simp
      have 1: "\<forall>u\<in>insert current (visited st).
            \<forall>sp. (if u = start_url then Some start_html else web u) = Some sp
              \<longrightarrow> page_record L u sp \<in> set (all_pages st)"
        using v None by auto
      have 2: "\<forall>p\<in>set (all_pages st). url p \<in> insert current (visited st)
            \<and> (\<exists>sp. (if url p = start_url then Some start_html else web (url p)) = Some sp
                  \<and> p = page_record L (url p) sp)"
        using r by auto
      from 1 2 d show ?thesis unfolding a s(1) by (intro conjI)
    next
      case (Some sp)
      with s(5) have a: "all_pages (crawl_step L web start_url start_html st)
                          = all_pages st @ [page_record L current sp]"
        by simp
      have 1: "\<forall>u\<in>insert current (visited st).
            \<forall>sp'. (if u = start_url then Some start_html else web u) = Some sp'
              \<longrightarrow> page_record L u sp' \<in> set (all_pages st @ [page_record L current sp])"
        using v Some by auto
      have 2: "\<forall>p\<in>set (all_pages st @ [page_record L current sp]).
            url p \<in> insert current (visited st)
            \<and> (\<exists>sp'. (if url p = start_url then Some start_html else web (url p)) = Some sp'
                  \<and> p = page_record L (url p) sp')"
        using r Some by (auto simp: page_record_sel)
      have 3: "distinct (map url (all_pages st @ [page_record L current sp]))"
        using d fresh by (simp add: page_record_sel)
      from 1 2 3 show ?thesis unfolding a s(1) by (intro conjI)
    qed
  qed
qed

lemma crawl_records:
  "(\<forall>u\<in>visited (crawl L web start_url max_pages).
      \<forall>sp. web u = Some sp
        \<longrightarrow> page_record L u sp \<in> set (all_pages (crawl L web start_url max_pages)))
   \<and> (\<forall>p\<in>set (all_pages (crawl L web start_url max_pages)).
        url p \<in> visited (crawl L web start_url max_pages)
        \<and> (\<exists>sp. web (url p) = Some sp \<and> p = page_record L (url p) sp))
   \<and> distinct (map url (all_pages (crawl L web start_url max_pages)))"
proof (cases "web start_url")
  case None
  then show ?thesis by (simp add: crawl_def)
next
  case (Some start_html)
  then have c: "(if u = start_url then Some start_html else web u) = web u" for u
    by simp
  let ?I = "\<lambda>s :: crawl_state.
      (\<forall>u\<in>visited s. \<forall>sp. (if u = start_url then Some start_html else web u) = Some sp
          \<longrightarrow> page_record L u sp \<in> set (all_pages s))
      \<and> (\<forall>p\<in>set (all_pages s). url p \<in> visited s
          \<and> (\<exists>sp. (if url p = start_url then Some start_html else web (url p)) = Some sp
                \<and> p = page_record L (url p) sp))
      \<and> distinct (map url (all_pages s))"
  have "?I (crawl_loop L web start_url start_html max_pages
          \<lparr>to_visit = [start_url], visited = {}, all_pages = [], pages = 0,
           fetched = [start_url], enqueued = [start_url]\<rparr>)"
  proof (rule crawl_loop_invariant [where I = ?I])
    show "?I \<lparr>to_visit = [start_url], visited = {}, all_pages = [], pages = 0,
           fetched = [start_url], enqueued = [start_url]\<rparr>"
      by simp
  next
    fix s :: crawl_state
    assume "?I s"
    then show "?I (crawl_step L web start_url start_html s)"
      by (intro crawl_step_records) (elim conjE, assumption)+
  qed
  then show ?thesis unfolding c using Some by (simp add: crawl_def)
qed

text \<open>
  Claim C3. For every start URL and every bound, the loop of \<open>find_all_page_links\<close> ends
  after finitely many iterations: the crawl marks at most \<open>max_pages\<close> URLs visited, records
  at most that many pages, and stops with the queue empty or the budget used. What it
  returns is the list of the pages visited so far: the record (URL, title, slug, type) of
  every URL marked visited whose fetch gave a document is in the list, every entry of the
  list is the record of such a URL, and no URL is recorded twice. The loop only ever
  appends to that list, and its exit returns it as it is.
\<close>

theorem crawl_bounded:
  "find_all_page_links L web start_url max_pages = all_pages (crawl L web start_url max_pages)
   \<and> finite (visited (crawl L web start_url max_pages))
   \<and> int (card (visited (crawl L web start_url max_pages))) \<le> max 0 max_pages
   \<and> int (length (find_all_page_links L web start_url max_pages)) \<le> max 0 max_pages
   \<and> url ` set (find_all_page_links L web start_url max_pages)
       \<subseteq> visited (crawl L web start_url max_pages)
   \<and> (to_visit (crawl L web start_url max_pages) = []
       \<or> max_pages \<le> int (pages (crawl L web start_url max_pages)))
   \<and> (\<forall>start_html st.
         (\<exists>k. crawl_loop L web start_url start_html max_pages st
                = (crawl_step L web start_url start_html ^^ k) st)
         \<and> prefix (all_pages st)
             (all_pages (crawl_loop L web start_url start_html max_pages st))
         \<and> (if to_visit st = [] \<or> max_pages \<le> int (pages st)
             then crawl_loop L web start_url start_html max_pages st = st
             else crawl_loop L web start_url start_html max_pages st
                  = crawl_loop L web start_url start_html max_pages
                      (crawl_step L web start_url start_html st)))
   \<and> (\<forall>u\<in>visited (crawl L web start_url max_pages).
         \<forall>sp. web u = Some sp
           \<longrightarrow> page_record L u sp \<in> set (find_all_page_links L web start_url max_pages))
   \<and> (\<forall>p\<in>set (find_all_page_links L web start_url max_pages).
         url p \<in> visited (crawl L web start_url max_pages)
         \<and> (\<exists>sp. web (url p) = Some sp \<and> p = page_record L (url p) sp))
   \<and> distinct (map url (find_all_page_links L web start_url max_pages))"
proof -
  note b = crawl_budget [of L web start_url max_pages]
  have 0: "finite (visited (crawl L web start_url max_pages))"
    using b by simp
  have 1: "int (card (visited (crawl L web start_url max_pages))) \<le> max 0 max_pages"
    using b by simp
  have 2: "int (length (find_all_page_links L web start_url max_pages)) \<le> max 0 max_pages"
    using b by (simp add: find_all_page_links_def)
  have 3: "url ` set (find_all_page_links L web start_url max_pages)
             \<subseteq> visited (crawl L web start_url max_pages)"
    using b by (simp add: find_all_page_links_def)
  have 4: "(if to_visit st = [] \<or> max_pages \<le> int (pages st)
             then crawl_loop L web start_url start_html max_pages st = st
             else crawl_loop L web start_url start_html max_pages st
                  = crawl_loop L web start_url start_html max_pages
                      (crawl_step L web start_url start_html st))" for start_html st
    using crawl_loop_go [of st max_pages L web start_url start_html]
      crawl_loop_stop [of st max_pages L web start_url start_html]
    by auto
  have 5: "\<forall>start_html st.
         (\<exists>k. crawl_loop L web start_url start_html max_pages st
                = (crawl_step L web start_url start_html ^^ k) st)
         \<and> prefix (all_pages st)
             (all_pages (crawl_loop L web start_url start_html max_pages st))
         \<and> (if to_visit st = [] \<or> max_pages \<le> int (pages st)
             then crawl_loop L web start_url start_html max_pages st = st
             else crawl_loop L web start_url start_html max_pages st
                  = crawl_loop L web start_url start_html max_pages
                      (crawl_step L web start_url start_html st))"
    using 4 crawl_loop_iterates crawl_loop_keeps_pages by (intro allI conjI)
  note k = crawl_records [of L web start_url max_pages,
      folded find_all_page_links_def [of L web start_url max_pages]]
  show ?thesis
    using find_all_page_links_def [of L web start_url max_pages] 0 1 2 3
      crawl_exit [of L web start_url max_pages] 5
      k [THEN conjunct1] k [THEN conjunct2, THEN conjunct1] k [THEN conjunct2, THEN conjunct2]
    by (intro conjI)
qed

theorem crawl_bounded_witness:
  "map url (find_all_page_links demo_lib demo_web ''https://a.com'' 2)
     = [''https://a.com'', ''https://a.com/urun/test-urun'']
   \<and> to_visit (crawl demo_lib demo_web ''https://a.com'' 2) \<noteq> []
   \<and> int (length (find_all_page_links demo_lib demo_web ''https://a.com'' 2)) \<le> max 0 2
   \<and> int (card (visited (crawl demo_lib demo_web ''https://a.com'' 2))) \<le> max 0 2
   \<and> ''https://a.com/urun/test-urun'' \<in> visited (crawl demo_lib demo_web ''https://a.com'' 2)
   \<and> demo_web ''https://a.com/urun/test-urun'' \<noteq> None
   \<and> page_record demo_lib ''https://a.com/urun/test-urun''
        (the (demo_web ''https://a.com/urun/test-urun''))
       = \<lparr>url = ''https://a.com/urun/test-urun'', title = ''Test Urun'', slug = ''test-urun'',
          ptype = ''product''\<rparr>
   \<and> \<lparr>url = ''https://a.com/urun/test-urun'', title = ''Test Urun'', slug = ''test-urun'',
        ptype = ''product''\<rparr>
       \<in> set (find_all_page_links demo_lib demo_web ''https://a.com'' 2)"
proof -
  have a: "map url (find_all_page_links demo_lib demo_web ''https://a.com'' 2)
     = [''https://a.com'', ''https://a.com/urun/test-urun'']"
    by code_simp
  have b: "to_visit (crawl demo_lib demo_web ''https://a.com'' 2)
     = [''https://a.com/blog/yazi'', ''https://a.com/kategori/giyim'', ''https://a.com/liste/2'']"
    by code_simp
  have b': "to_visit (crawl demo_lib demo_web ''https://a.com'' 2) \<noteq> []"
    unfolding b by simp
  have v: "visited (crawl demo_lib demo_web ''https://a.com'' 2)
             = {''https://a.com/urun/test-urun'', ''https://a.com''}"
    by code_simp
  have v': "''https://a.com/urun/test-urun'' \<in> visited (crawl demo_lib demo_web ''https://a.com'' 2)"
    unfolding v by simp
  obtain sp where w: "demo_web ''https://a.com/urun/test-urun'' = Some sp"
    and p: "page_record demo_lib ''https://a.com/urun/test-urun'' sp
       = \<lparr>url = ''https://a.com/urun/test-urun'', title = ''Test Urun'', slug = ''test-urun'',
          ptype = ''product''\<rparr>"
  proof -
    have "demo_web ''https://a.com/urun/test-urun'' \<noteq> None" by code_simp
    then obtain sp where w: "demo_web ''https://a.com/urun/test-urun'' = Some sp" by auto
    have "page_record demo_lib ''https://a.com/urun/test-urun''
             (the (demo_web ''https://a.com/urun/test-urun''))
       = \<lparr>url = ''https://a.com/urun/test-urun'', title = ''Test Urun'', slug = ''test-urun'',
          ptype = ''product''\<rparr>"
      by code_simp
    with w that show thesis by simp
  qed
  note r = crawl_bounded [of demo_lib demo_web "''https://a.com''" 2]
  note r3 = r [THEN conjunct2, THEN conjunct2, THEN conjunct1]
  note r4 = r [THEN conjunct2, THEN conjunct2, THEN conjunct2, THEN conjunct1]
  note r8 = r [THEN conjunct2, THEN conjunct2, THEN conjunct2, THEN conjunct2, THEN conjunct2,
      THEN conjunct2, THEN conjunct2, THEN conjunct1, rule_format, OF v' w]
  have w': "demo_web ''https://a.com/urun/test-urun'' \<noteq> None" using w by simp
  have p': "page_record demo_lib ''https://a.com/urun/test-urun''
        (the (demo_web ''https://a.com/urun/test-urun''))
       = \<lparr>url = ''https://a.com/urun/test-urun'', title = ''Test Urun'', slug = ''test-urun'',
          ptype = ''product''\<rparr>"
    using w p by simp
  show ?thesis
    using a b' r4 r3 v' w' p' r8 [unfolded p] by (intro conjI)
qed

lemma determine_page_type_range:
  "determine_page_type L u sp \<in> {''product'', ''blog'', ''category'', ''page''}"
  by (simp add: determine_page_type_def Let_def)

lemma crawl_step_types:
  assumes "\<forall>p\<in>set (all_pages st). ptype p \<in> {''product'', ''blog'', ''category'', ''page''}"
  shows "\<forall>p\<in>set (all_pages (crawl_step L web start_url start_html st)).
           ptype p \<in> {''product'', ''blog'', ''category'', ''page''}"
proof (cases "to_visit st")
  case Nil
  with assms show ?thesis by (simp add: crawl_step_def)
next
  case (Cons current rest)
  show ?thesis
  proof (cases "current \<in> visited st \<or> should_exclude_url current")
    case True
    from crawl_step_skip [OF Cons True] assms show ?thesis by simp
  next
    case False
    then have f: "current \<notin> visited st" "\<not> should_exclude_url current" by simp_all
    from crawl_step_visit(4) [OF Cons f, of L web start_url start_html] assms
      determine_page_type_range
    show ?thesis by (elim disjE exE conjE) (simp_all add: page_record_sel)
  qed
qed

lemma crawl_types:
  "\<forall>p\<in>set (all_pages (crawl L web start_url max_pages)).
     ptype p \<in> {''product'', ''blog'', ''category'', ''page''}"
proof (cases "web start_url")
  case None
  then show ?thesis by (simp add: crawl_def)
next
  case (Some start_html)
  let ?I = "\<lambda>s :: crawl_state.
      \<forall>p\<in>set (all_pages s). ptype p \<in> {''product'', ''blog'', ''category'', ''page''}"
  have "?I (crawl_loop L web start_url start_html max_pages
          \<lparr>to_visit = [start_url], visited = {}, all_pages = [], pages = 0,
           fetched = [start_url], enqueued = [start_url]\<rparr>)"
    by (rule crawl_loop_invariant [where I = ?I]) (simp, rule crawl_step_types)
  with Some show ?thesis by (simp add: crawl_def)
qed

lemma match_page_reason:
  "ptype page \<in> {''product'', ''blog'', ''category'', ''page''} \<Longrightarrow>
     reason (match_page L idx web page)
       \<in> {''sku'', ''barcode'', ''unmatched'', ''category'', ''blog'', ''page''}"
  by (auto simp: match_page_def Let_def)

text \<open>
  Claim C10. \<open>_determine_page_type\<close> returns "product", "blog", "category" or "page" for
  every URL and document; so every page that the crawler returns has one of these types,
  the final branch of the redirect loop (reason "non_product") is not taken for it, and
  the reason of its diagnostic entry is one of sku, barcode, unmatched, category, blog,
  page.
\<close>

theorem page_type_range:
  "determine_page_type L u sp \<in> {''product'', ''blog'', ''category'', ''page''}
   \<and> (\<forall>p\<in>set (find_all_page_links L web start_url max_pages).
         ptype p \<in> {''product'', ''blog'', ''category'', ''page''}
         \<and> reason (match_page L idx web' p) \<noteq> ''non_product''
         \<and> reason (match_page L idx web' p)
             \<in> {''sku'', ''barcode'', ''unmatched'', ''category'', ''blog'', ''page''})
   \<and> (\<forall>d\<in>set (diagnostics L idx web' (find_all_page_links L web start_url max_pages)).
         d_reason d \<in> {''sku'', ''barcode'', ''unmatched'', ''category'', ''blog'', ''page''})"
proof -
  have t: "ptype p \<in> {''product'', ''blog'', ''category'', ''page''}"
    if "p \<in> set (find_all_page_links L web start_url max_pages)" for p
    using that crawl_types [of L web start_url max_pages]
    by (simp add: find_all_page_links_def)
  have r: "reason (match_page L idx web' p)
             \<in> {''sku'', ''barcode'', ''unmatched'', ''category'', ''blog'', ''page''}"
    if "p \<in> set (find_all_page_links L web start_url max_pages)" for p
    using t [OF that] by (rule match_page_reason)
  have n: "reason (match_page L idx web' p) \<noteq> ''non_product''"
    if "p \<in> set (find_all_page_links L web start_url max_pages)" for p
    using r [OF that] by auto
  have d: "d_reason d \<in> {''sku'', ''barcode'', ''unmatched'', ''category'', ''blog'', ''page''}"
    if "d \<in> set (diagnostics L idx web' (find_all_page_links L web start_url max_pages))" for d
  proof -
    from that obtain p where p: "p \<in> set (find_all_page_links L web start_url max_pages)"
      and "d = diagnostic_of p (match_page L idx web' p)"
      by (auto simp: diagnostics_def)
    then have "d_reason d = reason (match_page L idx web' p)"
      by (simp add: diagnostic_of_def)
    with r [OF p] show ?thesis by simp
  qed
  from determine_page_type_range t r n d show ?thesis by blast
qed

theorem page_type_range_witness:
  "map ptype (find_all_page_links demo_lib demo_web ''https://a.com'' 200)
     = [''page'', ''product'', ''blog'', ''category'']
   \<and> map d_reason (diagnostics demo_lib (build_index demo_lib (Some demo_export)) demo_web
        (find_all_page_links demo_lib demo_web ''https://a.com'' 200))
     = [''page'', ''sku'', ''blog'', ''category'']
   \<and> list_all (\<lambda>d. d_reason d
          \<in> {''sku'', ''barcode'', ''unmatched'', ''category'', ''blog'', ''page''})
        (diagnostics demo_lib (build_index demo_lib (Some demo_export)) demo_web
          (find_all_page_links demo_lib demo_web ''https://a.com'' 200))"
proof -
  have a: "map ptype (find_all_page_links demo_lib demo_web ''https://a.com'' 200)
     = [''page'', ''product'', ''blog'', ''category'']"
    by code_simp
  have b: "map d_reason (diagnostics demo_lib (build_index demo_lib (Some demo_export)) demo_web
        (find_all_page_links demo_lib demo_web ''https://a.com'' 200))
     = [''page'', ''sku'', ''blog'', ''category'']"
    by code_simp
  from page_type_range [of demo_lib "''https://a.com''" demo_home demo_web "''https://a.com''"
      200 "build_index demo_lib (Some demo_export)" demo_web]
  have "list_all (\<lambda>d. d_reason d
          \<in> {''sku'', ''barcode'', ''unmatched'', ''category'', ''blog'', ''page''})
        (diagnostics demo_lib (build_index demo_lib (Some demo_export)) demo_web
          (find_all_page_links demo_lib demo_web ''https://a.com'' 200))"
    unfolding list_all_iff by (elim conjE)
  with a b show ?thesis by blast
qed

subsection \<open>Exclusion\<close>
















subsection \<open>Structured data\<close>

lemma block_candidates_raise: "json_loads L raw = None \<Longrightarrow> block_candidates L raw = []"
  by (simp add: block_candidates_def)

lemma collect_candidates_skip:
  "json_loads L raw = None \<Longrightarrow>
     collect_candidates L (pre @ raw # post) = collect_candidates L (pre @ post)"
  by (simp add: collect_candidates_def block_candidates_raise)

lemma lower_at_type: "lower ''@type'' = ''@type''"
  by code_simp

lemma lower_empty_not_product: "lower [] \<noteq> ''product''"
  by (simp add: lower_def)

lemma type_is_product_spec:
  assumes repr: "\<And>v. lower (py_repr L v) \<noteq> ''product''"
    and t: "type_is_product L node"
  shows "spec_product_typed node"
proof -
  have o: "py_or (dict_get node ''@type'') (dict_get node ''@type'') = dict_get node ''@type''"
    by (simp add: py_or_def)
  have i: "lower (py_str L i) = ''product''
           \<Longrightarrow> (case i of JStr t \<Rightarrow> lower t = ''product'' | _ \<Rightarrow> False)" for i
    using repr [of i] by (cases i) (simp_all add: py_str_def)
  from t show ?thesis
    unfolding type_is_product_def spec_product_typed_def lower_at_type o
    by (cases "dict_get node ''@type''") (auto simp: list_ex_iff dest: i)
qed

lemma find_sub_spec:
  assumes repr: "\<And>v. lower (py_repr L v) \<noteq> ''product''"
  shows "find_sub L subs = Some d \<Longrightarrow> d \<in> set (dicts_of subs) \<and> spec_product_typed d"
proof (induction subs)
  case Nil
  then show ?case by simp
next
  case (Cons x rest)
  show ?case
  proof (cases x)
    case (JObj d')
    show ?thesis
    proof (cases "lower (py_str L (dict_get_default d' ''@type'' (JStr []))) = ''product''")
      case True
      with Cons.prems JObj have d: "d = d'" by simp
      have "spec_product_typed d'"
      proof (cases "map_of d' ''@type''")
        case None
        with True lower_empty_not_product show ?thesis
          by (simp add: dict_get_default_def py_str_def)
      next
        case (Some v)
        with True repr [of v] show ?thesis
          by (cases v) (simp_all add: dict_get_default_def dict_get_def py_str_def
              spec_product_typed_def)
      qed
      with d JObj show ?thesis by simp
    next
      case False
      with Cons JObj show ?thesis by simp
    qed
  qed (use Cons in simp_all)
qed

lemma graph_product_spec:
  assumes "\<And>v. lower (py_repr L v) \<noteq> ''product''"
    and "graph_product L node = Some d"
  shows "d \<in> set (spec_graph_members node) \<and> spec_product_typed d"
proof -
  from assms(2) obtain subs where "map_of node ''@graph'' = Some (JArr subs)"
    "find_sub L subs = Some d"
    by (auto simp: graph_product_def split: option.splits json.splits)
  with find_sub_spec [OF assms(1), of subs d] show ?thesis
    by (simp add: spec_graph_members_def)
qed

lemma select_product_node_spec:
  assumes repr: "\<And>v. lower (py_repr L v) \<noteq> ''product''"
  shows "select_product_node L nodes acc = Some d \<Longrightarrow>
           acc = Some d
           \<or> (\<exists>c\<in>set (concat (map (\<lambda>node. node # spec_graph_members node) nodes)).
                 spec_product_typed c)"
proof (induction nodes arbitrary: acc)
  case Nil
  then show ?case by simp
next
  case (Cons node rest)
  show ?case
  proof (cases "type_is_product L node")
    case True
    from type_is_product_spec [OF repr True] show ?thesis by simp
  next
    case False
    show ?thesis
    proof (cases "graph_product L node")
      case None
      with False Cons.prems have "select_product_node L rest acc = Some d" by simp
      from Cons.IH [OF this] show ?thesis by auto
    next
      case (Some sub)
      from graph_product_spec [OF repr Some] have "\<exists>c\<in>set (node # spec_graph_members node).
          spec_product_typed c"
        by auto
      then show ?thesis by auto
    qed
  qed
qed

lemma no_product_all_absent:
  assumes repr: "\<And>v. lower (py_repr L v) \<noteq> ''product''"
    and none: "\<not> list_ex spec_product_typed (spec_candidates L (ld_json_scripts sp))"
  shows "parse_ld_json_product L sp base_url = empty_product"
proof (cases "select_product_node L (collect_candidates L (ld_json_scripts sp)) None")
  case None
  then show ?thesis by (simp add: parse_ld_json_product_def)
next
  case (Some d)
  from select_product_node_spec [OF repr Some] none show ?thesis
    by (simp add: spec_candidates_def list_ex_iff)
qed


text \<open>
  Claim C7. \<open>parse_ld_json_product\<close> is a total function into the record type: its result
  is the all-absent record or the record built from one node. A block on which
  \<open>json.loads\<close> raises, and a blank block, is skipped: the result is that of the document
  without the block. When no candidate (no collected object and no object of a \<open>@graph\<close>
  list) is Product-typed, the result is the record with every field absent. That last
  statement assumes of the library what holds in Python: \<open>str\<close> of a value that is not a
  string never reads "product", in any letter case.
\<close>

theorem parse_ld_json_total:
  assumes repr: "\<And>v. lower (py_repr L v) \<noteq> ''product''"
  shows "(parse_ld_json_product L sp base_url = empty_product
          \<or> (\<exists>node. parse_ld_json_product L sp base_url = product_of_node L base_url node))
     \<and> (json_loads L raw = None \<or> strip raw = [] \<longrightarrow>
           parse_ld_json_product L (sp\<lparr>ld_json_scripts := pre @ raw # post\<rparr>) base_url
             = parse_ld_json_product L (sp\<lparr>ld_json_scripts := pre @ post\<rparr>) base_url)
     \<and> (\<not> list_ex spec_product_typed (spec_candidates L (ld_json_scripts sp)) \<longrightarrow>
           parse_ld_json_product L sp base_url = empty_product)
     \<and> ld_name empty_product = None \<and> ld_sku empty_product = None
     \<and> ld_description_html empty_product = None \<and> ld_price empty_product = None
     \<and> ld_currency empty_product = None \<and> ld_image empty_product = None
     \<and> ld_images empty_product = None \<and> ld_brand empty_product = None
     \<and> ld_barcode empty_product = None \<and> ld_category_path empty_product = None"
proof -
  have 1: "parse_ld_json_product L sp base_url = empty_product
          \<or> (\<exists>node. parse_ld_json_product L sp base_url = product_of_node L base_url node)"
    by (auto simp: parse_ld_json_product_def Let_def split: option.split)
  have b: "block_candidates L raw = []" if "json_loads L raw = None \<or> strip raw = []"
    using that by (auto simp: block_candidates_def)
  have 2: "parse_ld_json_product L (sp\<lparr>ld_json_scripts := pre @ raw # post\<rparr>) base_url
             = parse_ld_json_product L (sp\<lparr>ld_json_scripts := pre @ post\<rparr>) base_url"
    if "json_loads L raw = None \<or> strip raw = []"
    using b [OF that] by (simp add: parse_ld_json_product_def collect_candidates_def)
  have 3: "parse_ld_json_product L sp base_url = empty_product"
    if "\<not> list_ex spec_product_typed (spec_candidates L (ld_json_scripts sp))"
    using repr that by (rule no_product_all_absent)
  from 1 2 3 show ?thesis by (simp add: empty_product_def)
qed

theorem parse_ld_json_total_witness:
  "(\<forall>v. lower (py_repr demo_lib v) \<noteq> ''product'')
   \<and> json_loads demo_lib broken_doc = None
   \<and> parse_ld_json_product demo_lib (blank_page\<lparr>ld_json_scripts := [broken_doc, product_doc]\<rparr>)
        ''https://a.com/p''
      = parse_ld_json_product demo_lib (blank_page\<lparr>ld_json_scripts := [product_doc]\<rparr>)
        ''https://a.com/p''
   \<and> ld_name (parse_ld_json_product demo_lib (blank_page\<lparr>ld_json_scripts := [product_doc]\<rparr>)
        ''https://a.com/p'') = Some ''B''
   \<and> \<not> list_ex spec_product_typed (spec_candidates demo_lib [website_doc])
   \<and> parse_ld_json_product demo_lib (blank_page\<lparr>ld_json_scripts := [website_doc]\<rparr>)
        ''https://a.com/'' = empty_product"
proof -
  have n: "lower ''None'' \<noteq> ''product''" by code_simp
  have repr: "lower (py_repr demo_lib v) \<noteq> ''product''" for v
    using n by (simp add: demo_lib_def)
  have l: "json_loads demo_lib broken_doc = None" by code_simp
  have w: "\<not> list_ex spec_product_typed (spec_candidates demo_lib [website_doc])" by code_simp
  have nm: "ld_name (parse_ld_json_product demo_lib (blank_page\<lparr>ld_json_scripts := [product_doc]\<rparr>)
        ''https://a.com/p'') = Some ''B''"
    by code_simp
  note r2 = parse_ld_json_total [OF repr, where raw = broken_doc and sp = blank_page
      and pre = "[]" and post = "[product_doc]" and base_url = "''https://a.com/p''",
      THEN conjunct2, THEN conjunct1, rule_format, OF disjI1, OF l]
  note r3 = parse_ld_json_total [OF repr,
      where sp = "blank_page\<lparr>ld_json_scripts := [website_doc]\<rparr>"
      and base_url = "''https://a.com/''",
      THEN conjunct2, THEN conjunct2, THEN conjunct1, rule_format]
  have e2: "parse_ld_json_product demo_lib
              (blank_page\<lparr>ld_json_scripts := [broken_doc, product_doc]\<rparr>) ''https://a.com/p''
      = parse_ld_json_product demo_lib (blank_page\<lparr>ld_json_scripts := [product_doc]\<rparr>)
        ''https://a.com/p''"
    using r2 by simp
  have e3: "parse_ld_json_product demo_lib (blank_page\<lparr>ld_json_scripts := [website_doc]\<rparr>)
        ''https://a.com/'' = empty_product"
    using w by (intro r3) simp
  show ?thesis
    using repr l e2 nm w e3 by (intro conjI allI)
qed

text \<open>
  Claim C6 (the code departs from it). On a page whose first structured-data block holds a
  Product in its \<open>@graph\<close> list and whose second block is a Product object, the first
  Product-typed candidate in document order is the one of the \<open>@graph\<close> list, and it is the
  one selected when the first block stands alone; with the second block present the result
  is built from the second block.
\<close>

theorem graph_product_overridden:
  "ld_name (parse_ld_json_product demo_lib (blank_page\<lparr>ld_json_scripts := [graph_doc]\<rparr>)
      ''https://a.com/p'') = Some ''A''
   \<and> spec_first_product demo_lib [graph_doc, product_doc]
       = Some [(''@type'', JStr ''Product''), (''name'', JStr ''A'')]
   \<and> ld_name (parse_ld_json_product demo_lib
        (blank_page\<lparr>ld_json_scripts := [graph_doc, product_doc]\<rparr>) ''https://a.com/p'')
       = Some ''B''"
proof (intro conjI)
  show "ld_name (parse_ld_json_product demo_lib (blank_page\<lparr>ld_json_scripts := [graph_doc]\<rparr>)
      ''https://a.com/p'') = Some ''A''"
    by code_simp
  show "spec_first_product demo_lib [graph_doc, product_doc]
       = Some [(''@type'', JStr ''Product''), (''name'', JStr ''A'')]"
    by code_simp
  show "ld_name (parse_ld_json_product demo_lib
        (blank_page\<lparr>ld_json_scripts := [graph_doc, product_doc]\<rparr>) ''https://a.com/p'')
       = Some ''B''"
    by code_simp
qed

subsection \<open>The redirect file\<close>

lemma ikas301_fixed_columns:
  "list_all (\<lambda>row. col_id row = [] \<and> gecici_yonlendirme_302 row = ''false''
      \<and> silindi_mi row = ''false'') (ikas301 L rows)"
  by (simp add: ikas301_def list_all_iff)

lemma ikas301_length: "length (ikas301 L rows) = length rows"
  by (simp add: ikas301_def)

text \<open>
  Claim C8 (the code departs from it). For the blog page of the example shop, as the
  crawler returns it, the assigned target path is "/blog/yazi"; the row of the redirect
  file has the source path "/blog/yazi" and the two literal "false" columns, but its
  target column is "/yazi": the last segment of the target path, not the path. For the
  home page, whose URL has the empty path, the source column is empty.
\<close>

theorem redirect_target_last_segment:
  "find_all_page_links demo_lib demo_web ''https://a.com/blog/yazi'' 1
     = [\<lparr>url = ''https://a.com/blog/yazi'', title = ''Yazi'', slug = ''yazi'', ptype = ''blog''\<rparr>]
   \<and> target_path (match_page demo_lib (build_index demo_lib None) demo_web
        \<lparr>url = ''https://a.com/blog/yazi'', title = ''Yazi'', slug = ''yazi'', ptype = ''blog''\<rparr>)
     = ''/blog/yazi''
   \<and> ikas301 demo_lib (redirects_rows demo_lib (build_index demo_lib None) demo_web
        [\<lparr>url = ''https://a.com/blog/yazi'', title = ''Yazi'', slug = ''yazi'', ptype = ''blog''\<rparr>])
     = [\<lparr>col_id = [], kaynak_adres = ''/blog/yazi'', yonlendirilecek_adres = ''/yazi'',
         gecici_yonlendirme_302 = ''false'', silindi_mi = ''false''\<rparr>]
   \<and> ikas301 demo_lib (redirects_rows demo_lib (build_index demo_lib None) demo_web
        [\<lparr>url = ''https://a.com'', title = ''Magaza'', slug = ''magaza'', ptype = ''page''\<rparr>])
     = [\<lparr>col_id = [], kaynak_adres = [], yonlendirilecek_adres = ''/magaza'',
         gecici_yonlendirme_302 = ''false'', silindi_mi = ''false''\<rparr>]"
proof (intro conjI)
  show "ikas301 demo_lib (redirects_rows demo_lib (build_index demo_lib None) demo_web
        [\<lparr>url = ''https://a.com'', title = ''Magaza'', slug = ''magaza'', ptype = ''page''\<rparr>])
     = [\<lparr>col_id = [], kaynak_adres = [], yonlendirilecek_adres = ''/magaza'',
         gecici_yonlendirme_302 = ''false'', silindi_mi = ''false''\<rparr>]"
    by code_simp
  show "find_all_page_links demo_lib demo_web ''https://a.com/blog/yazi'' 1
     = [\<lparr>url = ''https://a.com/blog/yazi'', title = ''Yazi'', slug = ''yazi'', ptype = ''blog''\<rparr>]"
    by code_simp
  show "target_path (match_page demo_lib (build_index demo_lib None) demo_web
        \<lparr>url = ''https://a.com/blog/yazi'', title = ''Yazi'', slug = ''yazi'', ptype = ''blog''\<rparr>)
     = ''/blog/yazi''"
    by code_simp
  show "ikas301 demo_lib (redirects_rows demo_lib (build_index demo_lib None) demo_web
        [\<lparr>url = ''https://a.com/blog/yazi'', title = ''Yazi'', slug = ''yazi'', ptype = ''blog''\<rparr>])
     = [\<lparr>col_id = [], kaynak_adres = ''/blog/yazi'', yonlendirilecek_adres = ''/yazi'',
         gecici_yonlendirme_302 = ''false'', silindi_mi = ''false''\<rparr>]"
    by code_simp
qed

end
